theory Spec2Isabelle
  imports Main "HOL-Library.Sublist"
begin

section \<open>Configuration and module constants (restartmanager.py, lines 18--27)\<close>

text \<open>
  The six values read with \<open>os.getenv\<close>; each is \<open>None\<close> when the variable is unset.
\<close>

record config =
  RCON_IP :: "string option"
  RCON_PORT :: "string option"
  RCON_PASSWORD :: "string option"
  DOCKER_CONTAINER :: "string option"
  WEBHOOK :: "string option"
  LOG_LEVEL :: "string option"

definition RESTART_TIME :: int where
  "RESTART_TIME = 2"

definition NOTIFY_TIME :: int where
  "NOTIFY_TIME = 20"

definition MAX_RETRIES :: int where
  "MAX_RETRIES = 100"

definition RETRY_DELAY :: nat where
  "RETRY_DELAY = 3"

section \<open>The outside world\<close>

text \<open>
  Everything the manager does to its collaborators is recorded, in program order, as an
  event: \<open>time.sleep\<close>, the calls of the logger, the construction of a \<open>Console\<close> with the
  keyword arguments it is given, every evaluation of \<open>self.rcon.command(cmd)\<close> with its
  outcome, the webhook message, the container restart and every line read from the log
  stream.
\<close>

datatype level = DEBUG | INFO | ERROR

datatype outcome = Replied string | Failed string

datatype event =
    Sleep nat
  | Log level string
  | Console_open "(string \<times> string option) list"
  | Command string outcome
  | Webhook string string
  | Container_restart
  | Log_line string

text \<open>
  What the collaborators answer is supplied from outside, as oracles indexed by how often
  each has been asked: the result of the \<open>k\<close>-th connection attempt (lines 138--139: the
  constructor may raise, or the \<open>info\<close> command on the new console may raise, or both
  succeed), the result of the \<open>k\<close>-th command sent on an existing console, the value of
  \<open>container.status\<close> at its \<open>k\<close>-th read, and the log stream opened after the \<open>k\<close>-th
  restart (\<open>None\<close> at an index means that the stream has closed there). The \<open>k\<close>-th
  webhook POST to the configured URL and the \<open>k\<close>-th \<open>container.restart()\<close> either succeed
  (\<open>None\<close>) or raise (the exception text). \<open>elapsed\<close> is the time in microseconds that
  the world lets pass at the \<open>k\<close>-th point at which the program waits for it.
\<close>

datatype attempt = Connected string | Console_raises string | Info_raises string

record env =
  connect_result :: "nat \<Rightarrow> attempt"
  command_result :: "nat \<Rightarrow> outcome"
  container_status :: "nat \<Rightarrow> string"
  log_lines :: "nat \<Rightarrow> nat \<Rightarrow> string option"
  webhook_result :: "string option \<Rightarrow> nat \<Rightarrow> string option"
  restart_result :: "nat \<Rightarrow> string option"
  elapsed :: "nat \<Rightarrow> nat"

text \<open>
  The state: the attributes of the single \<open>RestartManager\<close> instance, the wall clock in
  microseconds (the resolution of \<open>datetime\<close>), the oracle counters and the trace.
  The clock never goes back. It advances by the time slept, and by what the world lets
  pass (\<open>elapse\<close>) while a webhook POST or a container restart blocks, while the program
  waits for the sentinel, and between two successive readings of the clock (lines 47--48
  and 61--62). Console commands and connection attempts are taken to answer at once.
\<close>

record state =
  initialized :: bool
  rcon :: "nat option"
  hours :: int
  minutes :: int
  seconds :: int
  next_start :: int
  clock :: int
  attempts :: nat
  commands :: nat
  status_reads :: nat
  restarts :: nat
  posts :: nat
  waits :: nat
  trace :: "event list"

datatype 'a result = Return 'a | Raise string

definition emit :: "event \<Rightarrow> state \<Rightarrow> state" where
  "emit e s = s\<lparr>trace := trace s @ [e]\<rparr>"

definition log :: "level \<Rightarrow> string \<Rightarrow> state \<Rightarrow> state" where
  "log l msg s = emit (Log l msg) s"

definition sleep :: "nat \<Rightarrow> state \<Rightarrow> state" where
  "sleep n s = emit (Sleep n) (s\<lparr>clock := clock s + int n * 1000000\<rparr>)"

definition elapse :: "env \<Rightarrow> state \<Rightarrow> state" where
  "elapse E s = s\<lparr>clock := clock s + int (elapsed E (waits s)), waits := Suc (waits s)\<rparr>"

definition now :: "state \<Rightarrow> int" where
  "now s = clock s"

definition timedelta_hours :: "int \<Rightarrow> int" where
  "timedelta_hours h = h * 3600 * 1000000"

section \<open>Formatting integers (\<open>str(int)\<close> inside the f-strings)\<close>

fun digits :: "nat \<Rightarrow> string" where
  "digits n = (if n < 10 then [''0123456789'' ! n]
               else digits (n div 10) @ [''0123456789'' ! (n mod 10)])"

declare digits.simps [simp del]

definition str_int :: "int \<Rightarrow> string" where
  "str_int i = (if i < 0 then ''-'' @ digits (nat (- i)) else digits (nat i))"

section \<open>Restart timing (lines 72--81)\<close>

definition set_new_restart_time :: "state \<Rightarrow> state" where
  "set_new_restart_time s =
     log DEBUG ''new time has been set''
       (s\<lparr>next_start := now s + timedelta_hours RESTART_TIME\<rparr>)"

text \<open>
  \<open>int(td.total_seconds())\<close>: the difference in microseconds divided by \<open>10^6\<close> and
  truncated towards zero (exact for every difference below \<open>2^32\<close> seconds, where the
  float quotient cannot round to a whole number).
\<close>

definition int_total_seconds :: "int \<Rightarrow> int" where
  "int_total_seconds d = (if d < 0 then - ((- d) div 1000000) else d div 1000000)"

definition calculate_restart_time :: "state \<Rightarrow> state" where
  "calculate_restart_time s =
     (let time_remaining = next_start s - now s;
          total_seconds = int_total_seconds time_remaining;
          remainder = total_seconds mod 3600
      in s\<lparr>hours := total_seconds div 3600,
            minutes := remainder div 60,
            seconds := remainder mod 60\<rparr>)"

section \<open>The console connection (lines 114--151)\<close>

definition is_container_running :: "env \<Rightarrow> state \<Rightarrow> bool \<times> state" where
  "is_container_running E s =
     (container_status E (status_reads s) = ''running'',
      s\<lparr>status_reads := Suc (status_reads s)\<rparr>)"

text \<open>
  One evaluation of \<open>self.rcon.command(cmd)\<close>, recorded in the trace with its outcome.
  With \<open>self.rcon\<close> still \<open>None\<close> the attribute lookup raises and nothing is sent;
  otherwise the command goes out and the world answers.
\<close>

definition NoneType_error :: string where
  "NoneType_error = [CHR 0x27] @ ''NoneType'' @ [CHR 0x27] @ '' object has no attribute ''
                      @ [CHR 0x27] @ ''command'' @ [CHR 0x27]"

definition rcon_command :: "env \<Rightarrow> string \<Rightarrow> state \<Rightarrow> outcome \<times> state" where
  "rcon_command E cmd s =
     (case rcon s of
        None \<Rightarrow> (Failed NoneType_error, emit (Command cmd (Failed NoneType_error)) s)
      | Some c \<Rightarrow>
          (let r = command_result E (commands s)
           in (r, emit (Command cmd r) (s\<lparr>commands := Suc (commands s)\<rparr>))))"

definition is_rcon_connected :: "env \<Rightarrow> state \<Rightarrow> bool \<times> state" where
  "is_rcon_connected E s =
     (case rcon_command E ''info'' s of
        (Replied r, s1) \<Rightarrow> (True, s1)
      | (Failed exc, s1) \<Rightarrow> (False, s1))"

text \<open>
  The body of the \<open>try\<close> at lines 138--139: \<open>Console(host=RCON_IP, password=RCON_PASSWORD)\<close>
  followed by the \<open>info\<close> command. The result is the exception text if either raised.
  \<open>self.rcon\<close> is assigned as soon as the constructor has returned.
\<close>

definition connect_attempt :: "config \<Rightarrow> env \<Rightarrow> state \<Rightarrow> string option \<times> state" where
  "connect_attempt C E s =
     (let k = attempts s;
          s1 = emit (Console_open [(''host'', RCON_IP C), (''password'', RCON_PASSWORD C)])
                 (s\<lparr>attempts := Suc k\<rparr>)
      in case connect_result E k of
           Console_raises exc \<Rightarrow> (Some exc, s1)
         | Info_raises exc \<Rightarrow>
             (Some exc, emit (Command ''info'' (Failed exc)) (s1\<lparr>rcon := Some k\<rparr>))
         | Connected r \<Rightarrow>
             (None, emit (Command ''info'' (Replied r)) (s1\<lparr>rcon := Some k\<rparr>)))"

function create_rcon_connection_loop ::
  "config \<Rightarrow> env \<Rightarrow> int \<Rightarrow> state \<Rightarrow> unit result \<times> state" where
  "create_rcon_connection_loop C E retries s =
     (if retries > 0 then
        (case connect_attempt C E s of
           (None, s1) \<Rightarrow>
             (Return (), log INFO ''RCON connection successfully established.'' s1)
         | (Some exc, s1) \<Rightarrow>
             (let s2 = log ERROR (''Failed to establish RCON connection: '' @ exc) s1;
                  retries' = retries - 1
              in if retries' > 0 then
                   create_rcon_connection_loop C E retries'
                     (sleep RETRY_DELAY
                        (log INFO (''Retrying to connect... attempts remaining: ''
                                     @ str_int retries') s2))
                 else
                   (Raise exc,
                    log ERROR ''Max retries reached. Unable to establish RCON connection.'' s2)))
      else (Return (), s))"
  by pat_completeness auto
termination
  by (relation "measure (\<lambda>(C, E, retries, s). nat retries)") auto

declare create_rcon_connection_loop.simps [simp del]

definition create_rcon_connection :: "config \<Rightarrow> env \<Rightarrow> state \<Rightarrow> unit result \<times> state" where
  "create_rcon_connection C E s = create_rcon_connection_loop C E MAX_RETRIES s"

definition establish_rcon_connection :: "config \<Rightarrow> env \<Rightarrow> state \<Rightarrow> unit result \<times> state" where
  "establish_rcon_connection C E s =
     (case is_container_running E s of
        (False, s1) \<Rightarrow>
          (Return (), log ERROR ''Container not running. Cannot establish RCON connection.'' s1)
      | (True, s1) \<Rightarrow>
          (if rcon s1 = None then create_rcon_connection C E s1
           else (case is_rcon_connected E s1 of
                   (False, s2) \<Rightarrow> create_rcon_connection C E s2
                 | (True, s2) \<Rightarrow> (Return (), s2))))"

section \<open>Sending commands (lines 94--112)\<close>

text \<open>
  \<open>_establish_rcon_connection\<close> is called outside the \<open>try\<close>, so what it raises leaves
  \<open>_broadcast\<close> and \<open>_command\<close>; an exception of the command itself is logged and the
  call returns \<open>None\<close>.
\<close>

definition broadcast :: "config \<Rightarrow> env \<Rightarrow> string \<Rightarrow> state \<Rightarrow> string option result \<times> state" where
  "broadcast C E message s =
     (case establish_rcon_connection C E s of
        (Raise exc, s1) \<Rightarrow> (Raise exc, s1)
      | (Return u, s1) \<Rightarrow>
          (case rcon_command E (''broadcast '' @ message) s1 of
             (Replied cmd, s2) \<Rightarrow> (Return (Some cmd), log INFO cmd s2)
           | (Failed exc, s2) \<Rightarrow>
               (Return None, log ERROR (''Failed to broadcast message: '' @ exc) s2)))"

definition command :: "config \<Rightarrow> env \<Rightarrow> string \<Rightarrow> state \<Rightarrow> string option result \<times> state" where
  "command C E cmd_text s =
     (case establish_rcon_connection C E s of
        (Raise exc, s1) \<Rightarrow> (Raise exc, s1)
      | (Return u, s1) \<Rightarrow>
          (case rcon_command E cmd_text s1 of
             (Replied cmd, s2) \<Rightarrow> (Return (Some cmd), log INFO cmd s2)
           | (Failed exc, s2) \<Rightarrow>
               (Return None, log ERROR (''Failed to execute command: '' @ exc) s2)))"

section \<open>The countdown (lines 83--92)\<close>

function init_countdown_loop :: "config \<Rightarrow> env \<Rightarrow> int \<Rightarrow> state \<Rightarrow> unit result \<times> state" where
  "init_countdown_loop C E count s =
     (if count \<ge> 0 then
        (case (if count > 0
               then broadcast C E (''server_restarting_in_'' @ str_int count @ ''_secs'') s
               else broadcast C E ''server_restarting_NOW!'' s) of
           (Raise exc, s1) \<Rightarrow> (Raise exc, s1)
         | (Return r, s1) \<Rightarrow> init_countdown_loop C E (count - 1) (sleep 1 s1))
      else (Return (), s))"
  by pat_completeness auto
termination
  by (relation "measure (\<lambda>(C, E, count, s). nat (count + 1))") auto

declare init_countdown_loop.simps [simp del]

definition init_countdown :: "config \<Rightarrow> env \<Rightarrow> state \<Rightarrow> unit result \<times> state" where
  "init_countdown C E s =
     (case init_countdown_loop C E 5 s of
        (Raise exc, s1) \<Rightarrow> (Raise exc, s1)
      | (Return u, s1) \<Rightarrow> (Return (), sleep 2 s1))"

section \<open>The webhook (lines 153--167)\<close>

definition color_map :: "string \<Rightarrow> string option" where
  "color_map = map_of [(''debug'', ''FFFFFF''), (''info'', ''00FF00''),
                       (''error'', ''FF0000''), (''critical'', ''800000'')]"

text \<open>
  \<open>webhook.execute()\<close> posts to the URL in \<open>WEBHOOK\<close> and blocks until the answer is
  there. Nothing catches what it raises. The event records a POST that went through.
\<close>

definition log_to_discord ::
  "config \<Rightarrow> env \<Rightarrow> string \<Rightarrow> string \<Rightarrow> state \<Rightarrow> unit result \<times> state" where
  "log_to_discord C E log_message lvl s =
     (let color = (case color_map lvl of Some c \<Rightarrow> c | None \<Rightarrow> ''FFFFFF'');
          s1 = (elapse E s)\<lparr>posts := Suc (posts s)\<rparr>
      in case webhook_result E (WEBHOOK C) (posts s) of
           None \<Rightarrow> (Return (), emit (Webhook log_message color) s1)
         | Some exc \<Rightarrow> (Raise exc, s1))"

section \<open>Waiting for the server (lines 56--60)\<close>

definition last_message :: string where
  "last_message = ''[S_API FAIL] Tried to access Steam interface SteamNetworkingUtils004 before SteamAPI_Init succeeded.''"

text \<open>\<open>bytes.strip()\<close> removes leading and trailing ASCII whitespace.\<close>

definition is_space :: "char \<Rightarrow> bool" where
  "is_space c = (c \<in> set [CHR '' '', CHR 0x09, CHR 0x0A, CHR 0x0B, CHR 0x0C, CHR 0x0D])"

definition strip :: "string \<Rightarrow> string" where
  "strip b = rev (dropWhile is_space (rev (dropWhile is_space b)))"

text \<open>
  The \<open>for\<close> loop over \<open>container.logs(stream=True)\<close>, from line \<open>i\<close> of the stream. It
  ends at the first line that contains \<open>last_message\<close> (Python's \<open>in\<close> on bytes is
  \<^const>\<open>sublist\<close>), or when the stream closes; on a stream that does neither it does not
  return, which is the value \<open>None\<close>. The result is the number of lines read and the state.
\<close>

partial_function (option) await_ready ::
  "(nat \<Rightarrow> string option) \<Rightarrow> nat \<Rightarrow> state \<Rightarrow> (nat \<times> state) option" where
  "await_ready lines i s =
     (case lines i of
        None \<Rightarrow> Some (i, s)
      | Some line \<Rightarrow>
          (let s1 = log INFO (strip line) (emit (Log_line line) s)
           in if sublist last_message line then Some (Suc i, s1)
              else await_ready lines (Suc i) s1))"

section \<open>The restart sequence and the notification (lines 51--70)\<close>

text \<open>\<open>self.container.restart()\<close> blocks while the container restarts, and may raise.\<close>

definition container_restart :: "env \<Rightarrow> state \<Rightarrow> unit result \<times> state" where
  "container_restart E s =
     (let s1 = (elapse E s)\<lparr>restarts := Suc (restarts s)\<rparr>
      in case restart_result E (restarts s) of
           None \<Rightarrow> (Return (), emit Container_restart s1)
         | Some exc \<Rightarrow> (Raise exc, s1))"

text \<open>
  The whole sequence. The time that the wait for the sentinel took is charged when the
  loop ends (nothing reads the clock in between), and time passes again between the
  reading of line 61 and that of line 62.
\<close>

definition restart :: "config \<Rightarrow> env \<Rightarrow> state \<Rightarrow> (unit result \<times> state) option" where
  "restart C E s =
     (case init_countdown C E s of
        (Raise exc, s1) \<Rightarrow> Some (Raise exc, s1)
      | (Return u, s1) \<Rightarrow>
     (case command C E ''save'' s1 of
        (Raise exc, s2) \<Rightarrow> Some (Raise exc, s2)
      | (Return r, s2) \<Rightarrow>
     (case log_to_discord C E ''Server restarting...'' ''info'' s2 of
        (Raise exc, s3) \<Rightarrow> Some (Raise exc, s3)
      | (Return u3, s3) \<Rightarrow>
     (case container_restart E s3 of
        (Raise exc, s4) \<Rightarrow> Some (Raise exc, s4)
      | (Return u4, s4) \<Rightarrow>
     (case await_ready (log_lines E (restarts s4)) 0 s4 of
        None \<Rightarrow> None
      | Some (n, s5) \<Rightarrow>
          (let s6 = set_new_restart_time (elapse E s5);
               s7 = calculate_restart_time (elapse E s6)
           in case log_to_discord C E ''Server restarted!'' ''info'' s7 of
                (Raise exc, s8) \<Rightarrow> Some (Raise exc, s8)
              | (Return u8, s8) \<Rightarrow>
                  Some (Return (), log INFO ''Server restarted!'' s8)))))))"

definition notify_restart :: "config \<Rightarrow> env \<Rightarrow> state \<Rightarrow> unit result \<times> state" where
  "notify_restart C E s =
     (let s1 = calculate_restart_time s;
          proper_hrs = (if hours s1 = 1 then ''hr'' else ''hrs'');
          proper_mins = (if minutes s1 = 1 then ''min'' else ''mins'')
      in case broadcast C E (''server_restart_in_'' @ str_int (hours s1) @ proper_hrs @ ''_''
                               @ str_int (minutes s1) @ proper_mins) s1 of
           (Raise exc, s2) \<Rightarrow> (Raise exc, s2)
         | (Return r, s2) \<Rightarrow> (Return (), s2))"

section \<open>The singleton, the jobs and the main loop (lines 34--49, 169--184)\<close>

text \<open>
  \<open>RestartManager()\<close>: the first call creates the instance (\<open>rcon = None\<close>) and
  initialises it, reading the clock at line 47 and again at line 48; later calls return
  it unchanged. The container is taken to exist.
\<close>

definition RestartManager :: "env \<Rightarrow> state \<Rightarrow> state" where
  "RestartManager E s =
     (if initialized s then s
      else (calculate_restart_time (elapse E (set_new_restart_time (s\<lparr>rcon := None\<rparr>))))
             \<lparr>initialized := True\<rparr>)"

definition restart_job :: "config \<Rightarrow> env \<Rightarrow> state \<Rightarrow> (unit result \<times> state) option" where
  "restart_job C E s = restart C E (RestartManager E s)"

definition notify_job :: "config \<Rightarrow> env \<Rightarrow> state \<Rightarrow> unit result \<times> state" where
  "notify_job C E s = notify_restart C E (RestartManager E s)"

text \<open>
  The states of the manager that the program passes through once the instance exists:
  the main loop sleeps one second per iteration and runs whichever job is due. An
  exception leaving a job leaves the main loop too, so nothing follows a raise.
\<close>

inductive reachable :: "config \<Rightarrow> env \<Rightarrow> state \<Rightarrow> bool" for C :: config and E :: env where
  created: "\<not> initialized s \<Longrightarrow> reachable C E (RestartManager E s)"
| idle: "reachable C E s \<Longrightarrow> reachable C E (sleep 1 s)"
| restarted: "reachable C E s \<Longrightarrow> restart_job C E s = Some (Return (), s') \<Longrightarrow> reachable C E s'"
| notified: "reachable C E s \<Longrightarrow> notify_job C E s = (Return (), s') \<Longrightarrow> reachable C E s'"

text \<open>
  A stretch of the main loop between two restarts: each entry \<open>d\<close> of the list is \<open>d\<close>
  idle iterations followed by one run of the notification job. The result is the
  sequence of \<open>(hours, minutes, seconds)\<close> that the successive calls leave in the manager;
  it ends with the first call that raises.
\<close>

definition time_remaining :: "state \<Rightarrow> int \<times> int \<times> int" where
  "time_remaining s = (hours s, minutes s, seconds s)"

fun notify_run :: "config \<Rightarrow> env \<Rightarrow> nat list \<Rightarrow> state \<Rightarrow> (int \<times> int \<times> int) list" where
  "notify_run C E [] s = []"
| "notify_run C E (d # ds) s =
     (case notify_restart C E ((sleep 1 ^^ d) s) of
        (Raise exc, s1) \<Rightarrow> [time_remaining s1]
      | (Return u, s1) \<Rightarrow> time_remaining s1 # notify_run C E ds s1)"

section \<open>Views of a trace\<close>

definition new_events :: "state \<Rightarrow> state \<Rightarrow> event list" where
  "new_events s s' = drop (length (trace s)) (trace s')"

fun is_attempt :: "event \<Rightarrow> bool" where
  "is_attempt (Console_open kw) = True"
| "is_attempt e = False"

fun is_error_log :: "event \<Rightarrow> bool" where
  "is_error_log (Log ERROR msg) = True"
| "is_error_log e = False"

text \<open>The retry policy seen from outside: connection attempts and sleeps, in order.\<close>

datatype step = Attempt | Wait nat

fun retry_view :: "event list \<Rightarrow> step list" where
  "retry_view [] = []"
| "retry_view (Console_open kw # tr) = Attempt # retry_view tr"
| "retry_view (Sleep n # tr) = Wait n # retry_view tr"
| "retry_view (e # tr) = retry_view tr"

fun console_kwargs :: "event list \<Rightarrow> (string \<times> string option) list list" where
  "console_kwargs [] = []"
| "console_kwargs (Console_open kw # tr) = kw # console_kwargs tr"
| "console_kwargs (e # tr) = console_kwargs tr"

fun attempt_error :: "attempt \<Rightarrow> string option" where
  "attempt_error (Connected r) = None"
| "attempt_error (Console_raises exc) = Some exc"
| "attempt_error (Info_raises exc) = Some exc"

fun lines_read :: "event list \<Rightarrow> string list" where
  "lines_read [] = []"
| "lines_read (Log_line b # tr) = b # lines_read tr"
| "lines_read (e # tr) = lines_read tr"

text \<open>The countdown seen from outside: broadcast commands and sleeps, in order.\<close>

datatype tick = Said string | Slept nat

fun timing :: "event list \<Rightarrow> tick list" where
  "timing [] = []"
| "timing (Command c r # tr) =
     (if take 10 c = ''broadcast '' then Said (drop 10 c) # timing tr else timing tr)"
| "timing (Sleep n # tr) = Slept n # timing tr"
| "timing (e # tr) = timing tr"

fun broadcasts :: "event list \<Rightarrow> string list" where
  "broadcasts [] = []"
| "broadcasts (Command c r # tr) =
     (if take 10 c = ''broadcast '' then drop 10 c # broadcasts tr else broadcasts tr)"
| "broadcasts (e # tr) = broadcasts tr"

text \<open>
  The timing with the retry delays of \<open>_create_rcon_connection\<close> left out, and the number
  of those delays.
\<close>

definition own_timing :: "event list \<Rightarrow> tick list" where
  "own_timing tr = filter (\<lambda>t. t \<noteq> Slept RETRY_DELAY) (timing tr)"

definition retry_sleeps :: "event list \<Rightarrow> nat" where
  "retry_sleeps tr = length (filter (\<lambda>t. t = Slept RETRY_DELAY) (timing tr))"

text \<open>
  \<open>frame s s'\<close>: the step from \<open>s\<close> to \<open>s'\<close> leaves the schedule and the stored time
  remaining alone and does not turn the clock back. \<open>silent s s'\<close>: moreover it
  broadcasts nothing and sleeps only for retry delays, at most once per connection
  attempt.
\<close>

definition frame :: "state \<Rightarrow> state \<Rightarrow> bool" where
  "frame s s' = (next_start s' = next_start s \<and> hours s' = hours s \<and> minutes s' = minutes s
                 \<and> seconds s' = seconds s \<and> initialized s' = initialized s
                 \<and> restarts s' = restarts s \<and> clock s \<le> clock s')"

definition silent :: "state \<Rightarrow> state \<Rightarrow> bool" where
  "silent s s' = (frame s s' \<and> (\<exists>tr. trace s' = trace s @ tr \<and> own_timing tr = []
                    \<and> broadcasts tr = []
                    \<and> retry_sleeps tr \<le> length (filter is_attempt tr)))"

text \<open>What the countdown is meant to say and do, from \<open>n - 1\<close> down to zero.\<close>

definition countdown_message :: "int \<Rightarrow> string" where
  "countdown_message count =
     (if count > 0 then ''server_restarting_in_'' @ str_int count @ ''_secs''
      else ''server_restarting_NOW!'')"

fun plan :: "nat \<Rightarrow> tick list" where
  "plan 0 = []"
| "plan (Suc n) = Said (countdown_message (int n)) # Slept 1 # plan n"

fun said :: "tick list \<Rightarrow> string list" where
  "said [] = []"
| "said (Said m # ts) = m # said ts"
| "said (Slept n # ts) = said ts"

text \<open>
  The stored time remaining as a triple, the order on such triples (hours first, then
  minutes, then seconds), the whole seconds remaining at a state and their decomposition
  by floor division.
\<close>

fun time_le :: "int \<times> int \<times> int \<Rightarrow> int \<times> int \<times> int \<Rightarrow> bool" where
  "time_le (h, m, s) (h', m', s') = (h < h' \<or> h = h' \<and> (m < m' \<or> m = m' \<and> s \<le> s'))"

definition remaining_seconds :: "state \<Rightarrow> int" where
  "remaining_seconds s = int_total_seconds (next_start s - now s)"

definition hms :: "int \<Rightarrow> int \<times> int \<times> int" where
  "hms t = (t div 3600, (t mod 3600) div 60, (t mod 3600) mod 60)"

section \<open>Sample configurations, worlds and states\<close>

definition C0 :: config where
  "C0 = \<lparr>RCON_IP = Some ''127.0.0.1'', RCON_PORT = Some ''25575'',
         RCON_PASSWORD = Some ''secret'', DOCKER_CONTAINER = Some ''palworld'',
         WEBHOOK = Some ''https://discord.example/api/webhooks/1/token'',
         LOG_LEVEL = Some ''INFO''\<rparr>"

text \<open>
  A webhook endpoint that accepts every POST. Without a URL the request cannot be made
  and \<open>execute\<close> raises.
\<close>

definition accepting :: "string option \<Rightarrow> nat \<Rightarrow> string option" where
  "accepting url k = (case url of None \<Rightarrow> Some ''Invalid URL'' | Some u \<Rightarrow> None)"

text \<open>A world whose container is stopped and whose log stream opens with the sentinel.\<close>

definition E_down :: env where
  "E_down = \<lparr>connect_result = (\<lambda>k. Console_raises ''refused''),
             command_result = (\<lambda>k. Failed ''closed''),
             container_status = (\<lambda>k. ''exited''),
             log_lines = (\<lambda>r i. Some last_message),
             webhook_result = accepting, restart_result = (\<lambda>k. None),
             elapsed = (\<lambda>k. 0)\<rparr>"

text \<open>A world whose container runs but whose console refuses every connection.\<close>

definition E_refused :: env where
  "E_refused = \<lparr>connect_result = (\<lambda>k. Console_raises ''refused''),
                command_result = (\<lambda>k. Failed ''closed''),
                container_status = (\<lambda>k. ''running''),
                log_lines = (\<lambda>r i. None),
                webhook_result = accepting, restart_result = (\<lambda>k. None),
                elapsed = (\<lambda>k. 0)\<rparr>"

text \<open>A world whose console works, and one that drops the connection once.\<close>

definition E_up :: env where
  "E_up = \<lparr>connect_result = (\<lambda>k. Connected ''ok''),
           command_result = (\<lambda>k. Replied ''ok''),
           container_status = (\<lambda>k. ''running''),
           log_lines = (\<lambda>r i. Some last_message),
           webhook_result = accepting, restart_result = (\<lambda>k. None),
           elapsed = (\<lambda>k. 0)\<rparr>"

definition E_flaky :: env where
  "E_flaky = \<lparr>connect_result = (\<lambda>k. if k = 1 then Console_raises ''timed out'' else Connected ''ok''),
              command_result = (\<lambda>k. if k = 1 then Failed ''broken pipe'' else Replied ''ok''),
              container_status = (\<lambda>k. ''running''),
              log_lines = (\<lambda>r i. Some last_message),
              webhook_result = accepting, restart_result = (\<lambda>k. None),
              elapsed = (\<lambda>k. 0)\<rparr>"

text \<open>
  Worlds in which everything works: the container runs, the console answers, the
  webhook accepts, the log stream opens with the sentinel. In the first every wait
  takes a quarter of a second, in the second three seconds.
\<close>

definition E_day :: env where
  "E_day = E_up\<lparr>elapsed := (\<lambda>k. 250000)\<rparr>"

definition E_slow :: env where
  "E_slow = E_up\<lparr>elapsed := (\<lambda>k. 3000000)\<rparr>"

text \<open>Three log streams: one that closes after two lines, one that shows the sentinel on
  its eleventh line, and one that goes on for ever without it.\<close>

definition quiet_stream :: "nat \<Rightarrow> string option" where
  "quiet_stream i = (if i < 2 then Some ''Starting server'' else None)"

definition booting_stream :: "nat \<Rightarrow> string option" where
  "booting_stream i = (if i < 10 then Some ''Loading world'' else Some (last_message @ [CHR 0x0A]))"

definition silent_stream :: "nat \<Rightarrow> string option" where
  "silent_stream i = Some ''tick''"

text \<open>The process before the first job: no instance yet, clock at zero, nothing done.\<close>

definition s0 :: state where
  "s0 = \<lparr>initialized = False, rcon = None, hours = 0, minutes = 0, seconds = 0,
         next_start = 0, clock = 0, attempts = 0, commands = 0, status_reads = 0,
         restarts = 0, posts = 0, waits = 0, trace = []\<rparr>"

text \<open>The manager five seconds, and half a second, after its scheduled restart time.\<close>

definition s_past_5 :: state where
  "s_past_5 = (RestartManager E_up s0)\<lparr>clock := 7205000000\<rparr>"

definition s_past_half :: state where
  "s_past_half = (RestartManager E_up s0)\<lparr>clock := 7200500000\<rparr>"

text \<open>
  A day in the world \<open>E_day\<close>: twenty minutes after the start the first notification
  job creates the manager; at two hours the restart job runs; two hours of idle
  main-loop iterations later the next restart is due.
\<close>

definition s_first :: state where
  "s_first = snd (notify_job C0 E_day ((sleep 1 ^^ 1200) s0))"

definition s_restarted :: state where
  "s_restarted = (case restart_job C0 E_day ((sleep 1 ^^ 6000) s_first) of
                    Some (r, s) \<Rightarrow> s | None \<Rightarrow> s_first)"

definition s_next_due :: state where
  "s_next_due = (sleep 1 ^^ 7200) s_restarted"

text \<open>
  For a state in which \<open>restart\<close> has just returned: the time that passed between the
  reading of the clock at line 61 and the return, that is between the two readings and
  during the closing webhook POST.
\<close>

definition closing_delay :: "env \<Rightarrow> state \<Rightarrow> int" where
  "closing_delay E s = int (elapsed E (waits s - 2)) + int (elapsed E (waits s - 1))"

text \<open>
  \<open>quiet C E s s'\<close>: the main loop gets from \<open>s\<close> to \<open>s'\<close> by idle iterations and
  notification jobs alone, without a restart.
\<close>

inductive quiet :: "config \<Rightarrow> env \<Rightarrow> state \<Rightarrow> state \<Rightarrow> bool" for C :: config and E :: env where
  here: "quiet C E s s"
| idle: "quiet C E s s' \<Longrightarrow> quiet C E s (sleep 1 s')"
| notified: "quiet C E s s' \<Longrightarrow> notify_job C E s' = (r, s'') \<Longrightarrow> quiet C E s s''"

text \<open>
  \<open>down E\<close>: the container is never reported as running. \<open>reliable E\<close>: every
  connection attempt succeeds.
\<close>

definition down :: "env \<Rightarrow> bool" where
  "down E = (\<forall>k. container_status E k \<noteq> ''running'')"

definition reliable :: "env \<Rightarrow> bool" where
  "reliable E = (\<forall>k. \<exists>r. connect_result E k = Connected r)"

section \<open>A container that is not running\<close>

text \<open>
  C8. Called while \<open>container.status\<close> is not \<open>"running"\<close>, \<open>_establish_rcon_connection\<close>
  returns normally, opens no console, and its only effect on the outside is one logged
  error.
\<close>

theorem establish_not_running:
  assumes "container_status E (status_reads s) \<noteq> ''running''"
  shows "fst (establish_rcon_connection C E s) = Return ()
       \<and> new_events s (snd (establish_rcon_connection C E s)) =
           [Log ERROR ''Container not running. Cannot establish RCON connection.'']
       \<and> filter is_attempt (new_events s (snd (establish_rcon_connection C E s))) = []
       \<and> length (filter is_error_log (new_events s (snd (establish_rcon_connection C E s)))) = 1
       \<and> attempts (snd (establish_rcon_connection C E s)) = attempts s
       \<and> rcon (snd (establish_rcon_connection C E s)) = rcon s"
  using assms
  by (simp add: establish_rcon_connection_def is_container_running_def log_def emit_def
      new_events_def)

theorem establish_not_running_witness:
  "container_status E_down (status_reads s0) \<noteq> ''running''
   \<and> fst (establish_rcon_connection C0 E_down s0) = Return ()
   \<and> filter is_attempt (new_events s0 (snd (establish_rcon_connection C0 E_down s0))) = []
   \<and> length (filter is_error_log
         (new_events s0 (snd (establish_rcon_connection C0 E_down s0)))) = 1"
proof -
  have h: "container_status E_down (status_reads s0) \<noteq> ''running''"
    by (simp add: E_down_def)
  show ?thesis
    using h establish_not_running [OF h, of C0] by simp
qed

section \<open>The retry policy\<close>

lemma retry_view_append: "retry_view (xs @ ys) = retry_view xs @ retry_view ys"
  by (induction xs rule: retry_view.induct) simp_all

lemma console_kwargs_append: "console_kwargs (xs @ ys) = console_kwargs xs @ console_kwargs ys"
  by (induction xs rule: console_kwargs.induct) simp_all

lemma connect_attempt_fst: "fst (connect_attempt C E s) = attempt_error (connect_result E (attempts s))"
  by (simp add: connect_attempt_def Let_def split: attempt.splits)

lemma connect_attempt_attempts: "attempts (snd (connect_attempt C E s)) = Suc (attempts s)"
  by (simp add: connect_attempt_def Let_def emit_def split: attempt.splits)

lemma connect_attempt_clock: "clock (snd (connect_attempt C E s)) = clock s"
  by (simp add: connect_attempt_def Let_def emit_def split: attempt.splits)

lemma connect_attempt_trace:
  "\<exists>tr. trace (snd (connect_attempt C E s)) = trace s @ tr \<and> retry_view tr = [Attempt]
     \<and> console_kwargs tr = [[(''host'', RCON_IP C), (''password'', RCON_PASSWORD C)]]"
  by (simp add: connect_attempt_def Let_def emit_def split: attempt.splits)

lemma loop_all_fail:
  assumes "\<forall>k. attempt_error (connect_result E k) \<noteq> None"
  shows "\<exists>tr s'. create_rcon_connection_loop C E (int (Suc n)) s
            = (Raise (the (attempt_error (connect_result E (attempts s + n)))), s')
        \<and> trace s' = trace s @ tr
        \<and> retry_view tr = concat (replicate n [Attempt, Wait RETRY_DELAY]) @ [Attempt]
        \<and> attempts s' = attempts s + Suc n
        \<and> clock s' = clock s + int n * int RETRY_DELAY * 1000000"
proof (induction n arbitrary: s)
  case 0
  obtain e s1 where a0: "connect_attempt C E s = (e, s1)" by (cases "connect_attempt C E s")
  from a0 connect_attempt_fst[of C E s] have e: "attempt_error (connect_result E (attempts s)) = e" by simp
  with assms have "e \<noteq> None" by metis
  then obtain exc where exc: "e = Some exc" by auto
  from a0 exc have a: "connect_attempt C E s = (Some exc, s1)" by simp
  from e exc have ex: "attempt_error (connect_result E (attempts s)) = Some exc" by simp
  from a connect_attempt_trace[of C E s] obtain tr where tr: "trace s1 = trace s @ tr" "retry_view tr = [Attempt]" by auto
  from a connect_attempt_attempts[of C E s] have at: "attempts s1 = Suc (attempts s)" by simp
  from a connect_attempt_clock[of C E s] have cl: "clock s1 = clock s" by simp
  show ?case
    apply (subst create_rcon_connection_loop.simps)
    using a ex tr at cl
    by (simp add: Let_def log_def emit_def retry_view_append)
next
  case (Suc n)
  obtain e s1 where a0: "connect_attempt C E s = (e, s1)" by (cases "connect_attempt C E s")
  from a0 connect_attempt_fst[of C E s] have e: "attempt_error (connect_result E (attempts s)) = e" by simp
  with assms have "e \<noteq> None" by metis
  then obtain exc where exc: "e = Some exc" by auto
  from a0 exc have a: "connect_attempt C E s = (Some exc, s1)" by simp
  from e exc have ex: "attempt_error (connect_result E (attempts s)) = Some exc" by simp
  from a connect_attempt_trace[of C E s] obtain tr where tr: "trace s1 = trace s @ tr" "retry_view tr = [Attempt]" by auto
  from a connect_attempt_attempts[of C E s] have at: "attempts s1 = Suc (attempts s)" by simp
  from a connect_attempt_clock[of C E s] have cl: "clock s1 = clock s" by simp
  define s2 where "s2 = sleep RETRY_DELAY
                        (log INFO (''Retrying to connect... attempts remaining: ''
                                     @ str_int (int (Suc n))) (log ERROR (''Failed to establish RCON connection: '' @ exc) s1))"
  have step: "create_rcon_connection_loop C E (int (Suc (Suc n))) s = create_rcon_connection_loop C E (int (Suc n)) s2"
    apply (subst create_rcon_connection_loop.simps)
    using a exc by (simp add: Let_def s2_def)
  have tr2: "trace s2 = trace s @ tr @ [Log ERROR (''Failed to establish RCON connection: '' @ exc), Log INFO (''Retrying to connect... attempts remaining: ''
                                     @ str_int (int (Suc n))), Sleep RETRY_DELAY]"
    and at2: "attempts s2 = Suc (attempts s)" and cl2: "clock s2 = clock s + int RETRY_DELAY * 1000000"
    using tr at cl by (simp_all add: s2_def sleep_def log_def emit_def)
  from Suc.IH[of s2] obtain tr' s' where
    r: "create_rcon_connection_loop C E (int (Suc n)) s2 = (Raise (the (attempt_error (connect_result E (attempts s2 + n)))), s')"
    and t: "trace s' = trace s2 @ tr'" "retry_view tr' = concat (replicate n [Attempt, Wait RETRY_DELAY]) @ [Attempt]"
    and at': "attempts s' = attempts s2 + Suc n" and cl': "clock s' = clock s2 + int n * int RETRY_DELAY * 1000000" by blast
  show ?case
    apply (rule exI[of _ "tr @ [Log ERROR (''Failed to establish RCON connection: '' @ exc), Log INFO (''Retrying to connect... attempts remaining: ''
                                     @ str_int (int (Suc n))), Sleep RETRY_DELAY] @ tr'"])
    apply (rule exI[of _ s'])
    using step r t at' cl' tr2 at2 cl2 tr(2)
    by (simp add: retry_view_append algebra_simps)
qed


lemma attempts_retry_view:
  "length (filter is_attempt tr) = length (filter (\<lambda>x. x = Attempt) (retry_view tr))"
  by (induction tr rule: retry_view.induct) simp_all

lemma count_attempts_replicate:
  "length (filter (\<lambda>x. x = Attempt) (concat (replicate n [Attempt, Wait d]))) = n"
  by (induction n) simp_all

lemma new_events_append: "trace s' = trace s @ tr \<Longrightarrow> new_events s s' = tr"
  by (simp add: new_events_def)

text \<open>
  C2. When no connection attempt succeeds, \<open>_create_rcon_connection\<close> makes exactly
  \<open>MAX_RETRIES = 100\<close> attempts, sleeps \<open>RETRY_DELAY = 3\<close> after each of the first 99 and
  not after the last, and raises the exception of the last attempt.
\<close>

theorem create_rcon_connection_all_fail:
  assumes "\<forall>k r. connect_result E k \<noteq> Connected r"
  shows "fst (create_rcon_connection C E s)
           = Raise (the (attempt_error (connect_result E (attempts s + 99)))) 
       \<and> retry_view (new_events s (snd (create_rcon_connection C E s)))
           = concat (replicate 99 [Attempt, Wait 3]) @ [Attempt]
       \<and> length (filter is_attempt (new_events s (snd (create_rcon_connection C E s)))) = 100
       \<and> clock (snd (create_rcon_connection C E s)) = clock s + 99 * 3 * 1000000"
proof -
  have "attempt_error (connect_result E k) \<noteq> None" for k
    using assms by (cases "connect_result E k") simp_all
  then have "\<forall>k. attempt_error (connect_result E k) \<noteq> None" by simp
  from loop_all_fail[OF this, of C 99 s] obtain tr s' where
    r: "create_rcon_connection C E s = (Raise (the (attempt_error (connect_result E (attempts s + 99)))), s')"
    and tr: "trace s' = trace s @ tr"
      "retry_view tr = concat (replicate 99 [Attempt, Wait RETRY_DELAY]) @ [Attempt]"
    and cl: "clock s' = clock s + int 99 * int RETRY_DELAY * 1000000"
    by (auto simp: create_rcon_connection_def MAX_RETRIES_def)
  have n: "new_events s s' = tr" using tr(1) by (rule new_events_append)
  have "length (filter is_attempt tr) = 100"
    by (simp add: attempts_retry_view tr(2) count_attempts_replicate)
  then show ?thesis using r n tr(2) cl by (simp add: RETRY_DELAY_def)
qed

lemma connect_attempt_port:
  "connect_attempt (C\<lparr>RCON_PORT := p\<rparr>) E s = connect_attempt C E s"
  by (simp add: connect_attempt_def)

lemma loop_port:
  "create_rcon_connection_loop (C\<lparr>RCON_PORT := p\<rparr>) E retries s
     = create_rcon_connection_loop C E retries s"
proof (induction C E retries s rule: create_rcon_connection_loop.induct)
  case (1 C E retries s)
  show ?case
    apply (subst create_rcon_connection_loop.simps)
    apply (subst (2) create_rcon_connection_loop.simps)
    using 1 by (auto simp: connect_attempt_port Let_def split: prod.splits option.splits)
qed

lemma loop_kwargs:
  "\<exists>tr. trace (snd (create_rcon_connection_loop C E retries s)) = trace s @ tr
      \<and> attempts s \<le> attempts (snd (create_rcon_connection_loop C E retries s))
      \<and> console_kwargs tr
          = replicate (attempts (snd (create_rcon_connection_loop C E retries s)) - attempts s)
              [(''host'', RCON_IP C), (''password'', RCON_PASSWORD C)]"
proof (induction C E retries s rule: create_rcon_connection_loop.induct)
  case (1 C E retries s)
  obtain e s1 where a: "connect_attempt C E s = (e, s1)" by (cases "connect_attempt C E s")
  from a connect_attempt_trace[of C E s] obtain tr where
    tr: "trace s1 = trace s @ tr"
      "console_kwargs tr = [[(''host'', RCON_IP C), (''password'', RCON_PASSWORD C)]]" by auto
  from a connect_attempt_attempts[of C E s] have at: "attempts s1 = Suc (attempts s)" by simp
  show ?case
  proof (cases "retries > 0")
    case False
    then show ?thesis by (subst (1 2 3) create_rcon_connection_loop.simps) simp
  next
    case pos: True
    show ?thesis
    proof (cases e)
      case None
      then show ?thesis
        apply (subst (1 2 3) create_rcon_connection_loop.simps)
        using pos a tr at by (simp add: log_def emit_def console_kwargs_append)
    next
      case (Some exc)
      show ?thesis
      proof (cases "retries - 1 > 0")
        case False
        then show ?thesis
          apply (subst (1 2 3) create_rcon_connection_loop.simps)
          using pos a tr at Some by (simp add: log_def emit_def console_kwargs_append Let_def)
      next
        case True
        define s2 where "s2 = sleep RETRY_DELAY
            (log INFO (''Retrying to connect... attempts remaining: '' @ str_int (retries - 1))
               (log ERROR (''Failed to establish RCON connection: '' @ exc) s1))"
        have step: "create_rcon_connection_loop C E retries s
                     = create_rcon_connection_loop C E (retries - 1) s2"
          apply (subst create_rcon_connection_loop.simps)
          using pos a Some True by (simp add: Let_def s2_def)
        have IH: "\<exists>tr. trace (snd (create_rcon_connection_loop C E (retries - 1) s2)) = trace s2 @ tr
            \<and> attempts s2 \<le> attempts (snd (create_rcon_connection_loop C E (retries - 1) s2))
            \<and> console_kwargs tr
               = replicate (attempts (snd (create_rcon_connection_loop C E (retries - 1) s2)) - attempts s2)
                   [(''host'', RCON_IP C), (''password'', RCON_PASSWORD C)]"
          using "1.IH"[OF pos a[symmetric] Some refl refl True] by (simp add: s2_def)
        then obtain tr' where t': "trace (snd (create_rcon_connection_loop C E (retries - 1) s2)) = trace s2 @ tr'"
          "attempts s2 \<le> attempts (snd (create_rcon_connection_loop C E (retries - 1) s2))"
          "console_kwargs tr' = replicate (attempts (snd (create_rcon_connection_loop C E (retries - 1) s2)) - attempts s2)
                   [(''host'', RCON_IP C), (''password'', RCON_PASSWORD C)]" by blast
        have tr2: "\<exists>m. trace s2 = trace s @ tr @ m \<and> console_kwargs m = []" and at2: "attempts s2 = Suc (attempts s)"
          using tr at by (simp_all add: s2_def sleep_def log_def emit_def)
        then obtain m where m: "trace s2 = trace s @ tr @ m" "console_kwargs m = []" by blast
        show ?thesis
          unfolding step
          apply (rule exI[of _ "tr @ m @ tr'"])
          using t' m at2 tr(2)
          by (simp add: console_kwargs_append Suc_diff_le flip: replicate_Suc)
      qed
    qed
  qed
qed

text \<open>
  C9. Every \<open>Console\<close> is constructed with the keyword arguments \<open>host\<close> and \<open>password\<close>
  only. \<open>RCON_PORT\<close> is read from the environment but is not among them, and changing it
  changes nothing of what \<open>_create_rcon_connection\<close> does: with the port configured as
  \<open>25575\<close>, the one attempt of a working console is made with host and password alone.
\<close>

theorem create_rcon_connection_ignores_port:
  "create_rcon_connection (C\<lparr>RCON_PORT := p\<rparr>) E s = create_rcon_connection C E s
   \<and> console_kwargs (new_events s (snd (create_rcon_connection C E s)))
       = replicate (attempts (snd (create_rcon_connection C E s)) - attempts s)
           [(''host'', RCON_IP C), (''password'', RCON_PASSWORD C)]
   \<and> map_of [(''host'', RCON_IP C), (''password'', RCON_PASSWORD C)] ''port'' = None
   \<and> new_events s0 (snd (create_rcon_connection C0 E_up s0))
       = [Console_open [(''host'', Some ''127.0.0.1''), (''password'', Some ''secret'')],
          Command ''info'' (Replied ''ok''),
          Log INFO ''RCON connection successfully established.'']"
proof -
  have "new_events s0 (snd (create_rcon_connection C0 E_up s0))
       = [Console_open [(''host'', Some ''127.0.0.1''), (''password'', Some ''secret'')],
          Command ''info'' (Replied ''ok''),
          Log INFO ''RCON connection successfully established.'']"
    by (simp add: create_rcon_connection_def create_rcon_connection_loop.simps
        connect_attempt_def MAX_RETRIES_def log_def emit_def Let_def new_events_def
        C0_def E_up_def s0_def)
  moreover
  from loop_kwargs[of C E MAX_RETRIES s] obtain tr where
    "trace (snd (create_rcon_connection C E s)) = trace s @ tr"
    "console_kwargs tr = replicate (attempts (snd (create_rcon_connection C E s)) - attempts s)
              [(''host'', RCON_IP C), (''password'', RCON_PASSWORD C)]"
    by (auto simp: create_rcon_connection_def)
  then have "create_rcon_connection (C\<lparr>RCON_PORT := p\<rparr>) E s = create_rcon_connection C E s
   \<and> console_kwargs (new_events s (snd (create_rcon_connection C E s)))
       = replicate (attempts (snd (create_rcon_connection C E s)) - attempts s)
           [(''host'', RCON_IP C), (''password'', RCON_PASSWORD C)]"
    by (simp add: new_events_append create_rcon_connection_def loop_port)
  ultimately show ?thesis by simp
qed

theorem create_rcon_connection_all_fail_witness:
  "(\<forall>k r. connect_result E_refused k \<noteq> Connected r)
   \<and> fst (create_rcon_connection C0 E_refused s0) = Raise ''refused''
   \<and> length (filter is_attempt (new_events s0 (snd (create_rcon_connection C0 E_refused s0)))) = 100
   \<and> clock (snd (create_rcon_connection C0 E_refused s0)) = 297000000"
proof -
  have h: "\<forall>k r. connect_result E_refused k \<noteq> Connected r"
    by (simp add: E_refused_def)
  show ?thesis
    using h create_rcon_connection_all_fail [OF h, of C0 s0]
    by (simp add: E_refused_def s0_def)
qed

section \<open>Waiting for the sentinel\<close>

lemma lines_read_append: "lines_read (xs @ ys) = lines_read xs @ lines_read ys"
  by (induction xs rule: lines_read.induct) simp_all

lemma await_ready_stop:
  assumes "\<forall>j. i \<le> j \<and> j < n \<longrightarrow> (\<exists>b. lines j = Some b \<and> \<not> sublist last_message b)"
    and "i \<le> n"
    and "lines n = None \<or> (\<exists>b. lines n = Some b \<and> sublist last_message b)"
  shows "\<exists>s' tr. await_ready lines i s = Some (if lines n = None then n else Suc n, s')
           \<and> trace s' = trace s @ tr
           \<and> lines_read tr = map (\<lambda>j. the (lines j)) [i..<(if lines n = None then n else Suc n)]
           \<and> clock s' = clock s"
  using assms
proof (induction "n - i" arbitrary: i s)
  case 0
  then have "i = n" by simp
  with "0.prems"(3) show ?case
    by (subst await_ready.simps) (auto simp: Let_def log_def emit_def)
next
  case (Suc k)
  then have lt: "i < n" by simp
  with Suc.prems(1) obtain b where b: "lines i = Some b" "\<not> sublist last_message b" by auto
  define s1 where "s1 = log INFO (strip b) (emit (Log_line b) s)"
  have step: "await_ready lines i s = await_ready lines (Suc i) s1"
    by (subst await_ready.simps) (simp add: b s1_def Let_def)
  have "k = n - Suc i" using Suc.hyps(2) by simp
  from Suc.hyps(1)[OF this, of s1] Suc.prems lt obtain s' tr where
    r: "await_ready lines (Suc i) s1 = Some (if lines n = None then n else Suc n, s')"
    "trace s' = trace s1 @ tr"
    "lines_read tr = map (\<lambda>j. the (lines j)) [Suc i..<(if lines n = None then n else Suc n)]"
    "clock s' = clock s1"
    by auto
  have s1: "trace s1 = trace s @ [Log_line b, Log INFO (strip b)]" "clock s1 = clock s"
    by (simp_all add: s1_def log_def emit_def)
  have up: "[i..<(if lines n = None then n else Suc n)] = i # [Suc i..<(if lines n = None then n else Suc n)]"
    using lt by (simp add: upt_conv_Cons)
  have read: "map (\<lambda>j. the (lines j)) [i..<(if lines n = None then n else Suc n)]
                = b # lines_read tr"
    by (subst up) (simp add: r(3) b(1) del: upt_Suc)
  show ?case
    unfolding step read
    apply (rule exI[of _ s'])
    apply (rule exI[of _ "[Log_line b, Log INFO (strip b)] @ tr"])
    using r(1,2,4) s1 by (simp add: lines_read_append)
qed

lemma await_ready_returns:
  assumes "await_ready lines i s = Some r"
  shows "\<exists>j\<ge>i. lines j = None \<or> (\<exists>b. lines j = Some b \<and> sublist last_message b)"
  using assms
proof (induction rule: await_ready.raw_induct[rotated 1, consumes 1])
  case (1 await_ready lines i s r)
  show ?case
  proof (cases "lines i")
    case None
    then show ?thesis by auto
  next
    case (Some b)
    show ?thesis
    proof (cases "sublist last_message b")
      case True
      with Some show ?thesis by auto
    next
      case False
      with 1(2) Some have "await_ready lines (Suc i) (log INFO (strip b) (emit (Log_line b) s)) = Some r"
        by (simp add: Let_def)
      from 1(1)[OF this] obtain j where "j \<ge> Suc i" "lines j = None \<or> (\<exists>b. lines j = Some b \<and> sublist last_message b)" by blast
      then show ?thesis by (intro exI[of _ j]) auto
    qed
  qed
qed

lemma await_ready_never:
  assumes "\<forall>j. \<exists>b. lines j = Some b \<and> \<not> sublist last_message b"
  shows "await_ready lines i s = None"
proof (rule ccontr)
  assume "await_ready lines i s \<noteq> None"
  then obtain r where "await_ready lines i s = Some r" by auto
  from await_ready_returns[OF this] obtain j where
    j: "lines j = None \<or> (\<exists>b. lines j = Some b \<and> sublist last_message b)" by blast
  from assms obtain b where "lines j = Some b" "\<not> sublist last_message b" by blast
  with j show False by simp
qed


text \<open>
  C1, as the code has it. The readiness loop reads the lines in order. If line \<open>n\<close> is the
  first that contains the sentinel, it returns having read exactly the lines \<open>0..n\<close>, that
  is \<open>n + 1\<close> lines. If the stream closes after \<open>n\<close> lines without the sentinel, it returns
  having read all \<open>n\<close>. If the stream never closes and never shows the sentinel, it does
  not return.
\<close>

theorem await_ready_first_sentinel:
  "((\<forall>j<n. \<exists>b. lines j = Some b \<and> \<not> sublist last_message b)
      \<and> (\<exists>b. lines n = Some b \<and> sublist last_message b)
     \<longrightarrow> map_option fst (await_ready lines 0 s) = Some (Suc n)
       \<and> map_option (\<lambda>r. lines_read (new_events s (snd r))) (await_ready lines 0 s)
           = Some (map (\<lambda>j. the (lines j)) [0..<Suc n]))
   \<and> ((\<forall>j<n. \<exists>b. lines j = Some b \<and> \<not> sublist last_message b) \<and> lines n = None
     \<longrightarrow> map_option fst (await_ready lines 0 s) = Some n
       \<and> map_option (\<lambda>r. lines_read (new_events s (snd r))) (await_ready lines 0 s)
           = Some (map (\<lambda>j. the (lines j)) [0..<n]))
   \<and> ((\<forall>j. \<exists>b. lines j = Some b \<and> \<not> sublist last_message b)
     \<longrightarrow> await_ready lines 0 s = None)"
proof (intro conjI impI)
  assume a: "(\<forall>j<n. \<exists>b. lines j = Some b \<and> \<not> sublist last_message b)
      \<and> (\<exists>b. lines n = Some b \<and> sublist last_message b)"
  then have "\<exists>s' tr. await_ready lines 0 s = Some (if lines n = None then n else Suc n, s')
           \<and> trace s' = trace s @ tr
           \<and> lines_read tr = map (\<lambda>j. the (lines j)) [0..<(if lines n = None then n else Suc n)]
           \<and> clock s' = clock s"
    by (intro await_ready_stop) auto
  with a obtain s' tr where r: "await_ready lines 0 s = Some (Suc n, s')"
    "trace s' = trace s @ tr" "lines_read tr = map (\<lambda>j. the (lines j)) [0..<Suc n]"
    by auto
  from r show "map_option fst (await_ready lines 0 s) = Some (Suc n)" by simp
  from r show "map_option (\<lambda>r. lines_read (new_events s (snd r))) (await_ready lines 0 s)
           = Some (map (\<lambda>j. the (lines j)) [0..<Suc n])"
    by (simp add: new_events_append del: upt_Suc)
next
  assume a: "(\<forall>j<n. \<exists>b. lines j = Some b \<and> \<not> sublist last_message b) \<and> lines n = None"
  then have "\<exists>s' tr. await_ready lines 0 s = Some (if lines n = None then n else Suc n, s')
           \<and> trace s' = trace s @ tr
           \<and> lines_read tr = map (\<lambda>j. the (lines j)) [0..<(if lines n = None then n else Suc n)]
           \<and> clock s' = clock s"
    by (intro await_ready_stop) auto
  with a obtain s' tr where r: "await_ready lines 0 s = Some (n, s')"
    "trace s' = trace s @ tr" "lines_read tr = map (\<lambda>j. the (lines j)) [0..<n]"
    by auto
  from r show "map_option fst (await_ready lines 0 s) = Some n" by simp
  from r show "map_option (\<lambda>r. lines_read (new_events s (snd r))) (await_ready lines 0 s)
           = Some (map (\<lambda>j. the (lines j)) [0..<n])"
    by (simp add: new_events_append)
next
  assume "\<forall>j. \<exists>b. lines j = Some b \<and> \<not> sublist last_message b"
  then show "await_ready lines 0 s = None" by (rule await_ready_never)
qed

lemma not_ready_Loading: "\<not> sublist last_message ''Loading world''"
  by (simp add: last_message_def sublist_Cons_right)

lemma not_ready_Starting: "\<not> sublist last_message ''Starting server''"
  by (simp add: last_message_def sublist_Cons_right)

lemma not_ready_tick: "\<not> sublist last_message ''tick''"
  by (simp add: last_message_def sublist_Cons_right)

theorem await_ready_first_sentinel_witness:
  "map_option fst (await_ready booting_stream 0 s0) = Some 11
   \<and> map_option fst (await_ready quiet_stream 0 s0) = Some 2
   \<and> await_ready silent_stream 0 s0 = None"
proof -
  have 1: "(\<forall>j<10. \<exists>b. booting_stream j = Some b \<and> \<not> sublist last_message b)
           \<and> (\<exists>b. booting_stream 10 = Some b \<and> sublist last_message b)"
    by (simp add: booting_stream_def not_ready_Loading)
  have 2: "(\<forall>j<2. \<exists>b. quiet_stream j = Some b \<and> \<not> sublist last_message b)
           \<and> quiet_stream 2 = None"
    by (simp add: quiet_stream_def not_ready_Starting)
  have 3: "\<forall>j. \<exists>b. silent_stream j = Some b \<and> \<not> sublist last_message b"
    by (simp add: silent_stream_def not_ready_tick)
  show ?thesis
    using 1 2 3 await_ready_first_sentinel [of 10 booting_stream s0]
      await_ready_first_sentinel [of 2 quiet_stream s0]
      await_ready_first_sentinel [of 0 silent_stream s0]
    by simp
qed

text \<open>
  A stream without the sentinel on which the loop does return: it closes after two lines.
\<close>

theorem await_ready_closed_stream:
  "\<not> (\<exists>j b. quiet_stream j = Some b \<and> sublist last_message b)
   \<and> map_option fst (await_ready quiet_stream 0 s0) = Some 2"
proof -
  have "\<exists>s' tr. await_ready quiet_stream 0 s0
            = Some (if quiet_stream 2 = None then 2 else Suc 2, s')
          \<and> trace s' = trace s0 @ tr
          \<and> lines_read tr = map (\<lambda>j. the (quiet_stream j))
                               [0..<(if quiet_stream 2 = None then 2 else Suc 2)]
          \<and> clock s' = clock s0"
    by (rule await_ready_stop) (simp_all add: quiet_stream_def not_ready_Starting)
  then have "map_option fst (await_ready quiet_stream 0 s0) = Some 2"
    by (auto simp: quiet_stream_def)
  moreover have "\<not> (\<exists>j b. quiet_stream j = Some b \<and> sublist last_message b)"
    by (auto simp: quiet_stream_def not_ready_Starting split: if_splits)
  ultimately show ?thesis by simp
qed

section \<open>What managing the connection leaves untouched\<close>

lemma timing_append: "timing (xs @ ys) = timing xs @ timing ys"
  by (induction xs rule: timing.induct) simp_all

lemma broadcasts_append: "broadcasts (xs @ ys) = broadcasts xs @ broadcasts ys"
  by (induction xs rule: broadcasts.induct) simp_all

lemma own_timing_append: "own_timing (xs @ ys) = own_timing xs @ own_timing ys"
  by (simp add: own_timing_def timing_append)

lemma retry_sleeps_append: "retry_sleeps (xs @ ys) = retry_sleeps xs + retry_sleeps ys"
  by (simp add: retry_sleeps_def timing_append)

lemma frame_refl: "frame s s"
  by (simp add: frame_def)

lemma frame_trans: "frame s s1 \<Longrightarrow> frame s1 s2 \<Longrightarrow> frame s s2"
  by (simp add: frame_def)

lemma silent_refl: "silent s s"
  by (simp add: silent_def frame_refl own_timing_def retry_sleeps_def)

lemma silent_trans:
  assumes "silent s s1" and "silent s1 s2"
  shows "silent s s2"
proof -
  from assms(1) obtain a where a: "frame s s1" "trace s1 = trace s @ a" "own_timing a = []"
    "broadcasts a = []" "retry_sleeps a \<le> length (filter is_attempt a)"
    by (auto simp: silent_def)
  from assms(2) obtain b where b: "frame s1 s2" "trace s2 = trace s1 @ b" "own_timing b = []"
    "broadcasts b = []" "retry_sleeps b \<le> length (filter is_attempt b)"
    by (auto simp: silent_def)
  have "trace s2 = trace s @ (a @ b)" using a b by simp
  moreover have "own_timing (a @ b) = []" "broadcasts (a @ b) = []"
    "retry_sleeps (a @ b) \<le> length (filter is_attempt (a @ b))"
    using a b by (simp_all add: own_timing_append broadcasts_append retry_sleeps_append)
  ultimately show ?thesis
    unfolding silent_def using frame_trans[OF a(1) b(1)] by blast
qed

lemma silent_log: "silent s (log l msg s)"
  unfolding silent_def
  by (rule conjI, simp add: frame_def log_def emit_def, rule exI[of _ "[Log l msg]"])
     (simp add: log_def emit_def own_timing_def retry_sleeps_def)

lemma silent_info: "silent s (emit (Command ''info'' r) s)"
  unfolding silent_def
  by (rule conjI, simp add: frame_def emit_def, rule exI[of _ "[Command ''info'' r]"])
     (simp add: emit_def own_timing_def retry_sleeps_def)

lemma silent_connect_attempt: "silent s (snd (connect_attempt C E s))"
  by (simp add: silent_def frame_def connect_attempt_def Let_def emit_def own_timing_def
      retry_sleeps_def split: attempt.splits)

lemma silent_retry:
  "silent s (sleep RETRY_DELAY (log l2 m2 (log l1 m1 (snd (connect_attempt C E s)))))"
  by (simp add: silent_def frame_def connect_attempt_def Let_def emit_def log_def sleep_def
      own_timing_def retry_sleeps_def split: attempt.splits)

lemma silent_loop: "silent s (snd (create_rcon_connection_loop C E retries s))"
proof (induction C E retries s rule: create_rcon_connection_loop.induct)
  case (1 C E retries s)
  obtain e s1 where a: "connect_attempt C E s = (e, s1)" by (cases "connect_attempt C E s")
  have s1: "silent s s1" using silent_connect_attempt[of s C E] a by simp
  show ?case
  proof (cases "retries > 0")
    case False
    then show ?thesis by (subst create_rcon_connection_loop.simps) (simp add: silent_refl)
  next
    case pos: True
    show ?thesis
    proof (cases e)
      case None
      then show ?thesis
        apply (subst create_rcon_connection_loop.simps)
        using pos a silent_trans[OF s1 silent_log] by simp
    next
      case (Some exc)
      show ?thesis
      proof (cases "retries - 1 > 0")
        case False
        then show ?thesis
          apply (subst create_rcon_connection_loop.simps)
          using pos a Some silent_trans[OF silent_trans[OF s1 silent_log] silent_log]
          by (simp add: Let_def)
      next
        case True
        define s2 where "s2 = sleep RETRY_DELAY
            (log INFO (''Retrying to connect... attempts remaining: '' @ str_int (retries - 1))
               (log ERROR (''Failed to establish RCON connection: '' @ exc) s1))"
        have step: "create_rcon_connection_loop C E retries s
                     = create_rcon_connection_loop C E (retries - 1) s2"
          apply (subst create_rcon_connection_loop.simps)
          using pos a Some True by (simp add: Let_def s2_def)
        have "silent s s2"
          using silent_retry[of s INFO _ ERROR _ C E] a by (simp add: s2_def)
        moreover have "silent s2 (snd (create_rcon_connection_loop C E (retries - 1) s2))"
          using "1.IH"[OF pos a[symmetric] Some refl refl True] by (simp add: s2_def)
        ultimately show ?thesis unfolding step by (rule silent_trans)
      qed
    qed
  qed
qed

lemma silent_create: "silent s (snd (create_rcon_connection C E s))"
  by (simp add: create_rcon_connection_def silent_loop)

lemma silent_status: "silent s (snd (is_container_running E s))"
  by (simp add: is_container_running_def silent_def frame_def own_timing_def retry_sleeps_def)

lemma silent_probe: "silent s (snd (is_rcon_connected E s))"
  by (simp add: is_rcon_connected_def rcon_command_def silent_def frame_def emit_def Let_def
      own_timing_def retry_sleeps_def split: option.splits outcome.splits)

lemma silent_establish: "silent s (snd (establish_rcon_connection C E s))"
proof -
  obtain b s1 where r: "is_container_running E s = (b, s1)"
    by (cases "is_container_running E s")
  have 1: "silent s s1" using silent_status[of s E] r by simp
  obtain c s2 where p: "is_rcon_connected E s1 = (c, s2)"
    by (cases "is_rcon_connected E s1")
  have 2: "silent s1 s2" using silent_probe[of s1 E] p by simp
  show ?thesis
    using r p silent_trans[OF 1 silent_log] silent_trans[OF 1 silent_create]
      silent_trans[OF silent_trans[OF 1 2] silent_create] silent_trans[OF 1 2]
    by (simp add: establish_rcon_connection_def split: bool.splits)
qed

text \<open>What one call of \<open>_broadcast\<close> adds to the trace.\<close>

lemma broadcast_effect:
  assumes "broadcast C E message s = (r, s')"
  shows "frame s s' \<and> (\<exists>tr. trace s' = trace s @ tr
           \<and> retry_sleeps tr \<le> length (filter is_attempt tr)
           \<and> own_timing tr = (case r of Return v \<Rightarrow> [Said message] | Raise exc \<Rightarrow> [])
           \<and> broadcasts tr = (case r of Return v \<Rightarrow> [message] | Raise exc \<Rightarrow> []))"
proof -
  obtain u s1 where e: "establish_rcon_connection C E s = (u, s1)"
    by (cases "establish_rcon_connection C E s")
  from silent_establish[of s C E] e obtain a where a: "frame s s1" "trace s1 = trace s @ a"
    "own_timing a = []" "broadcasts a = []" "retry_sleeps a \<le> length (filter is_attempt a)"
    by (auto simp: silent_def)
  show ?thesis
  proof (cases u)
    case (Raise exc)
    with assms e have "r = Raise exc" "s' = s1" by (simp_all add: broadcast_def)
    with a show ?thesis by auto
  next
    case (Return v)
    obtain q s2 where c: "rcon_command E (''broadcast '' @ message) s1 = (q, s2)"
      by (cases "rcon_command E (''broadcast '' @ message) s1")
    then have s2: "frame s1 s2" "trace s2 = trace s1 @ [Command (''broadcast '' @ message) q]"
      by (auto simp: rcon_command_def frame_def emit_def Let_def split: option.splits)
    obtain l m where r: "s' = log l m s2" "\<exists>v. r = Return v"
      using assms e Return c by (cases q) (auto simp: broadcast_def)
    have f: "frame s s'"
      using a(1) s2(1) r(1) by (simp add: frame_def log_def emit_def)
    have t: "trace s' = trace s @ (a @ [Command (''broadcast '' @ message) q, Log l m])"
      using a(2) s2(2) r(1) by (simp add: log_def emit_def)
    have b: "own_timing [Command (''broadcast '' @ message) q, Log l m] = [Said message]"
      "broadcasts [Command (''broadcast '' @ message) q, Log l m] = [message]"
      "retry_sleeps [Command (''broadcast '' @ message) q, Log l m] = 0"
      by (simp_all add: own_timing_def retry_sleeps_def)
    show ?thesis
      apply (rule conjI[OF f])
      apply (rule exI[of _ "a @ [Command (''broadcast '' @ message) q, Log l m]"])
      using t a(3,4,5) r(2) b
      by (auto simp add: own_timing_append broadcasts_append retry_sleeps_append
          simp del: append.simps)
  qed
qed

lemma command_effect:
  assumes "command C E cmd_text s = (r, s')"
  shows "frame s s'"
proof -
  obtain u s1 where e: "establish_rcon_connection C E s = (u, s1)"
    by (cases "establish_rcon_connection C E s")
  from silent_establish[of s C E] e have a: "frame s s1" by (simp add: silent_def)
  show ?thesis
  proof (cases u)
    case (Raise exc)
    with assms e a show ?thesis by (simp add: command_def)
  next
    case (Return v)
    obtain q s2 where c: "rcon_command E cmd_text s1 = (q, s2)"
      by (cases "rcon_command E cmd_text s1")
    then have s2: "frame s1 s2"
      by (auto simp: rcon_command_def frame_def emit_def Let_def split: option.splits)
    obtain l m where r: "s' = log l m s2"
      using assms e Return c by (cases q) (auto simp: command_def)
    show ?thesis using a s2 r by (simp add: frame_def log_def emit_def)
  qed
qed

section \<open>The countdown\<close>

lemma plan_6: "plan 6 = [Said ''server_restarting_in_5_secs'', Slept 1,
    Said ''server_restarting_in_4_secs'', Slept 1, Said ''server_restarting_in_3_secs'', Slept 1,
    Said ''server_restarting_in_2_secs'', Slept 1, Said ''server_restarting_in_1_secs'', Slept 1,
    Said ''server_restarting_NOW!'', Slept 1]"
  by (simp add: eval_nat_numeral countdown_message_def str_int_def digits.simps)

lemma said_timing: "said (timing tr) = broadcasts tr"
  by (induction tr rule: timing.induct) simp_all

lemma said_filter: "said (filter (\<lambda>t. t \<noteq> Slept d) ts) = said ts"
  by (induction ts rule: said.induct) simp_all

lemma said_own_timing: "said (own_timing tr) = broadcasts tr"
  by (simp add: own_timing_def said_filter said_timing)

lemma said_take_plan: "said (take (2 * k) (plan n)) = take k (said (plan n))"
proof (induction n arbitrary: k)
  case 0
  show ?case by simp
next
  case (Suc n)
  show ?case by (cases k) (simp_all add: Suc.IH)
qed

lemma countdown_step:
  "0 \<le> count \<Longrightarrow> init_countdown_loop C E count s =
     (case broadcast C E (countdown_message count) s of
        (Raise exc, s1) \<Rightarrow> (Raise exc, s1)
      | (Return r, s1) \<Rightarrow> init_countdown_loop C E (count - 1) (sleep 1 s1))"
  by (subst init_countdown_loop.simps) (simp add: countdown_message_def)

lemma countdown_done: "init_countdown_loop C E (- 1) s = (Return (), s)"
  by (subst init_countdown_loop.simps) simp

lemma countdown_loop_effect:
  assumes "init_countdown_loop C E (int n - 1) s = (r, s')"
  shows "frame s s' \<and> (\<exists>tr. trace s' = trace s @ tr
           \<and> retry_sleeps tr \<le> length (filter is_attempt tr)
           \<and> (case r of Return u \<Rightarrow> own_timing tr = plan n
                        | Raise exc \<Rightarrow> \<exists>k<n. own_timing tr = take (2 * k) (plan n)))"
  using assms
proof (induction n arbitrary: s)
  case 0
  then show ?case by (auto simp: countdown_done frame_refl own_timing_def retry_sleeps_def)
next
  case (Suc n)
  obtain q s1 where b: "broadcast C E (countdown_message (int n)) s = (q, s1)"
    by (cases "broadcast C E (countdown_message (int n)) s")
  from broadcast_effect[OF b] obtain a where a: "frame s s1" "trace s1 = trace s @ a"
    "retry_sleeps a \<le> length (filter is_attempt a)"
    "own_timing a = (case q of Return v \<Rightarrow> [Said (countdown_message (int n))] | Raise exc \<Rightarrow> [])"
    by blast
  have unf: "init_countdown_loop C E (int (Suc n) - 1) s =
     (case broadcast C E (countdown_message (int n)) s of
        (Raise exc, s1) \<Rightarrow> (Raise exc, s1)
      | (Return r, s1) \<Rightarrow> init_countdown_loop C E (int n - 1) (sleep 1 s1))"
    using countdown_step[of "int n" C E s] by simp
  show ?case
  proof (cases q)
    case (Raise exc)
    with unf b Suc.prems have "r = Raise exc" "s' = s1" by simp_all
    moreover have "own_timing a = take (2 * 0) (plan (Suc n))" using a(4) Raise by simp
    ultimately show ?thesis using a(1,2,3) by auto
  next
    case (Return v)
    with unf b Suc.prems have rest: "init_countdown_loop C E (int n - 1) (sleep 1 s1) = (r, s')"
      by simp
    from Suc.IH[OF rest] obtain c where c: "frame (sleep 1 s1) s'"
      "trace s' = trace (sleep 1 s1) @ c" "retry_sleeps c \<le> length (filter is_attempt c)"
      "case r of Return u \<Rightarrow> own_timing c = plan n
               | Raise exc \<Rightarrow> \<exists>k<n. own_timing c = take (2 * k) (plan n)"
      by blast
    have f: "frame s s'"
      using a(1) c(1) by (simp add: frame_def sleep_def emit_def)
    have t: "trace s' = trace s @ (a @ [Sleep 1] @ c)"
      using a(2) c(2) by (simp add: sleep_def emit_def)
    have o: "own_timing (a @ [Sleep 1] @ c) = Said (countdown_message (int n)) # Slept 1 # own_timing c"
      using a(4) Return by (simp add: own_timing_append) (simp add: own_timing_def RETRY_DELAY_def)
    have n: "retry_sleeps (a @ [Sleep 1] @ c) \<le> length (filter is_attempt (a @ [Sleep 1] @ c))"
      using a(3) c(3) by (simp add: retry_sleeps_append) (simp add: retry_sleeps_def RETRY_DELAY_def)
    have v: "case r of Return u \<Rightarrow> own_timing (a @ [Sleep 1] @ c) = plan (Suc n)
               | Raise exc \<Rightarrow> \<exists>k<Suc n. own_timing (a @ [Sleep 1] @ c) = take (2 * k) (plan (Suc n))"
    proof (cases r)
      case (Return u)
      with c(4) o show ?thesis by simp
    next
      case (Raise exc)
      with c(4) obtain k where "k < n" "own_timing c = take (2 * k) (plan n)" by auto
      then have "Suc k < Suc n" "own_timing (a @ [Sleep 1] @ c) = take (2 * Suc k) (plan (Suc n))"
        using o by simp_all
      then show ?thesis using Raise by (simp only: result.case) blast
    qed
    show ?thesis using f t n v by blast
  qed
qed

lemma countdown_effect:
  assumes "init_countdown C E s = (r, s')"
  shows "frame s s' \<and> (\<exists>tr. trace s' = trace s @ tr
           \<and> retry_sleeps tr \<le> length (filter is_attempt tr)
           \<and> (case r of Return u \<Rightarrow> own_timing tr = plan 6 @ [Slept 2]
                        | Raise exc \<Rightarrow> \<exists>k<6. own_timing tr = take (2 * k) (plan 6)))"
proof -
  obtain q s1 where l: "init_countdown_loop C E (int 6 - 1) s = (q, s1)"
    by (cases "init_countdown_loop C E (int 6 - 1) s")
  from countdown_loop_effect[OF l] obtain a where a: "frame s s1" "trace s1 = trace s @ a"
    "retry_sleeps a \<le> length (filter is_attempt a)"
    "case q of Return u \<Rightarrow> own_timing a = plan 6
             | Raise exc \<Rightarrow> \<exists>k<6. own_timing a = take (2 * k) (plan 6)"
    by blast
  from l have l5: "init_countdown_loop C E 5 s = (q, s1)" by simp
  show ?thesis
  proof (cases q)
    case (Raise exc)
    with assms l5 have "r = Raise exc" "s' = s1" by (simp_all add: init_countdown_def)
    with a Raise show ?thesis by auto
  next
    case (Return u)
    with assms l5 have r: "r = Return ()" "s' = sleep 2 s1" by (simp_all add: init_countdown_def)
    have f: "frame s s'" using a(1) r(2) by (simp add: frame_def sleep_def emit_def)
    have t: "trace s' = trace s @ (a @ [Sleep 2])" using a(2) r(2) by (simp add: sleep_def emit_def)
    have o: "own_timing (a @ [Sleep 2]) = plan 6 @ [Slept 2]"
      using a(4) Return by (simp add: own_timing_append) (simp add: own_timing_def RETRY_DELAY_def)
    have n: "retry_sleeps (a @ [Sleep 2]) \<le> length (filter is_attempt (a @ [Sleep 2]))"
      using a(3) by (simp add: retry_sleeps_append) (simp add: retry_sleeps_def RETRY_DELAY_def)
    show ?thesis using f t o n r(1) by auto
  qed
qed


lemma said_plan_6: "said (plan 6) = [''server_restarting_in_5_secs'',
    ''server_restarting_in_4_secs'', ''server_restarting_in_3_secs'',
    ''server_restarting_in_2_secs'', ''server_restarting_in_1_secs'', ''server_restarting_NOW!'']"
  by (simp add: plan_6)

text \<open>
  C4, as the code has it. A countdown that returns has issued the six broadcasts in the
  order 5, 4, 3, 2, 1, NOW, whatever became of each command. A countdown that is cut
  short by the connection error of \<open>_create_rcon_connection\<close> has issued only the first
  \<open>k\<close> of them, for some \<open>k < 6\<close>.
\<close>

theorem countdown_broadcast_order:
  "(fst (init_countdown C E s) = Return ()
      \<longrightarrow> broadcasts (new_events s (snd (init_countdown C E s)))
          = [''server_restarting_in_5_secs'', ''server_restarting_in_4_secs'',
             ''server_restarting_in_3_secs'', ''server_restarting_in_2_secs'',
             ''server_restarting_in_1_secs'', ''server_restarting_NOW!''])
   \<and> (fst (init_countdown C E s) \<noteq> Return ()
      \<longrightarrow> (\<exists>k<6. broadcasts (new_events s (snd (init_countdown C E s)))
          = take k [''server_restarting_in_5_secs'', ''server_restarting_in_4_secs'',
             ''server_restarting_in_3_secs'', ''server_restarting_in_2_secs'',
             ''server_restarting_in_1_secs'', ''server_restarting_NOW!'']))"
proof -
  obtain r s' where i: "init_countdown C E s = (r, s')" by (cases "init_countdown C E s")
  from countdown_effect[OF i] obtain tr where tr: "trace s' = trace s @ tr"
    "case r of Return u \<Rightarrow> own_timing tr = plan 6 @ [Slept 2]
             | Raise exc \<Rightarrow> \<exists>k<6. own_timing tr = take (2 * k) (plan 6)"
    by blast
  have n: "new_events s s' = tr" using tr(1) by (rule new_events_append)
  show ?thesis
  proof (cases r)
    case (Return u)
    with tr(2) have "said (own_timing tr) = said (plan 6 @ [Slept 2])" by simp
    then have "broadcasts tr = said (plan 6)" by (simp add: said_own_timing plan_6)
    with i n Return show ?thesis by (simp add: said_plan_6)
  next
    case (Raise exc)
    with tr(2) obtain k where k: "k < 6" "own_timing tr = take (2 * k) (plan 6)" by auto
    then have "said (own_timing tr) = take k (said (plan 6))" by (simp only: said_take_plan)
    then have "broadcasts tr = take k (said (plan 6))" by (simp add: said_own_timing)
    with i n Raise k(1) show ?thesis by (auto simp: said_plan_6)
  qed
qed

text \<open>
  C5, as the code has it. Leaving aside the retry delays of connection attempts, a
  countdown that returns sleeps one unit after each of the six broadcasts, the last
  included, and then two more units. The retry delays are at most one per connection
  attempt made during the countdown.
\<close>

theorem countdown_waits:
  "(fst (init_countdown C E s) = Return ()
      \<longrightarrow> filter (\<lambda>t. t \<noteq> Slept RETRY_DELAY) (timing (new_events s (snd (init_countdown C E s))))
          = [Said ''server_restarting_in_5_secs'', Slept 1,
             Said ''server_restarting_in_4_secs'', Slept 1,
             Said ''server_restarting_in_3_secs'', Slept 1,
             Said ''server_restarting_in_2_secs'', Slept 1,
             Said ''server_restarting_in_1_secs'', Slept 1,
             Said ''server_restarting_NOW!'', Slept 1, Slept 2])
   \<and> length (filter (\<lambda>t. t = Slept RETRY_DELAY) (timing (new_events s (snd (init_countdown C E s)))))
       \<le> length (filter is_attempt (new_events s (snd (init_countdown C E s))))"
proof -
  obtain r s' where i: "init_countdown C E s = (r, s')" by (cases "init_countdown C E s")
  from countdown_effect[OF i] obtain tr where tr: "trace s' = trace s @ tr"
    "retry_sleeps tr \<le> length (filter is_attempt tr)"
    "case r of Return u \<Rightarrow> own_timing tr = plan 6 @ [Slept 2]
             | Raise exc \<Rightarrow> \<exists>k<6. own_timing tr = take (2 * k) (plan 6)"
    by blast
  have n: "new_events s s' = tr" using tr(1) by (rule new_events_append)
  have "r = Return () \<longrightarrow> own_timing tr = plan 6 @ [Slept 2]" using tr(3) by auto
  then show ?thesis
    using i n tr(2) unfolding own_timing_def retry_sleeps_def by (simp add: plan_6)
qed

lemmas run_defs = init_countdown_def init_countdown_loop.simps broadcast_def command_def
  establish_rcon_connection_def is_container_running_def is_rcon_connected_def
  rcon_command_def create_rcon_connection_def create_rcon_connection_loop.simps
  connect_attempt_def MAX_RETRIES_def log_def emit_def sleep_def Let_def

lemma countdown_down: "fst (init_countdown C0 E_down s0) = Return ()"
  by (simp add: run_defs E_down_def s0_def str_int_def digits.simps NoneType_error_def)

lemma countdown_up: "fst (init_countdown C0 E_up s0) = Return ()"
  by (simp add: run_defs E_up_def s0_def str_int_def digits.simps)

lemma broadcast_refused:
  assumes "rcon s = None"
  shows "fst (broadcast C E_refused message s) = Raise ''refused''"
proof -
  define s1 where "s1 = s\<lparr>status_reads := Suc (status_reads s)\<rparr>"
  have "\<forall>k. attempt_error (connect_result E_refused k) \<noteq> None"
    by (simp add: E_refused_def)
  from loop_all_fail[OF this, of C 99 s1] obtain s' where
    "create_rcon_connection_loop C E_refused 100 s1 = (Raise ''refused'', s')"
    by (auto simp: E_refused_def)
  then have "establish_rcon_connection C E_refused s = (Raise ''refused'', s')"
    using assms
    by (simp add: establish_rcon_connection_def is_container_running_def E_refused_def
        create_rcon_connection_def MAX_RETRIES_def s1_def)
  then show ?thesis by (simp add: broadcast_def)
qed

lemma countdown_refused:
  "fst (init_countdown C0 E_refused s0) = Raise ''refused''
   \<and> broadcasts (new_events s0 (snd (init_countdown C0 E_refused s0))) = []"
proof -
  obtain r s1 where b: "broadcast C0 E_refused (countdown_message 5) s0 = (r, s1)"
    by (cases "broadcast C0 E_refused (countdown_message 5) s0")
  have r: "r = Raise ''refused''"
    using broadcast_refused[of s0 C0 "countdown_message 5"] b by (simp add: s0_def)
  from broadcast_effect[OF b] r obtain tr where "trace s1 = trace s0 @ tr" "broadcasts tr = []"
    by auto
  then have "broadcasts (new_events s0 s1) = []" by (simp add: new_events_append)
  moreover have "init_countdown C0 E_refused s0 = (Raise ''refused'', s1)"
    using countdown_step[of 5 C0 E_refused s0] b r by (simp add: init_countdown_def)
  ultimately show ?thesis by simp
qed

theorem countdown_broadcast_order_witness:
  "fst (init_countdown C0 E_down s0) = Return ()
   \<and> broadcasts (new_events s0 (snd (init_countdown C0 E_down s0)))
       = [''server_restarting_in_5_secs'', ''server_restarting_in_4_secs'',
          ''server_restarting_in_3_secs'', ''server_restarting_in_2_secs'',
          ''server_restarting_in_1_secs'', ''server_restarting_NOW!'']
   \<and> fst (init_countdown C0 E_refused s0) \<noteq> Return ()
   \<and> (\<exists>k<6. broadcasts (new_events s0 (snd (init_countdown C0 E_refused s0)))
       = take k [''server_restarting_in_5_secs'', ''server_restarting_in_4_secs'',
          ''server_restarting_in_3_secs'', ''server_restarting_in_2_secs'',
          ''server_restarting_in_1_secs'', ''server_restarting_NOW!''])"
proof -
  have "fst (init_countdown C0 E_refused s0) \<noteq> Return ()"
    using countdown_refused by simp
  then show ?thesis
    using countdown_down countdown_broadcast_order [of C0 E_down s0]
      countdown_broadcast_order [of C0 E_refused s0]
    by simp
qed

text \<open>
  A countdown that broadcasts nothing: the container runs, every connection attempt is
  refused, and the error of the hundredth attempt ends the phase.
\<close>

theorem countdown_cut_short:
  "fst (init_countdown C0 E_refused s0) = Raise ''refused''
   \<and> broadcasts (new_events s0 (snd (init_countdown C0 E_refused s0))) = []"
  by (rule countdown_refused)

theorem countdown_waits_witness:
  "fst (init_countdown C0 E_up s0) = Return ()
   \<and> filter (\<lambda>t. t \<noteq> Slept RETRY_DELAY) (timing (new_events s0 (snd (init_countdown C0 E_up s0))))
       = [Said ''server_restarting_in_5_secs'', Slept 1,
          Said ''server_restarting_in_4_secs'', Slept 1,
          Said ''server_restarting_in_3_secs'', Slept 1,
          Said ''server_restarting_in_2_secs'', Slept 1,
          Said ''server_restarting_in_1_secs'', Slept 1,
          Said ''server_restarting_NOW!'', Slept 1, Slept 2]"
  using countdown_up countdown_waits [of C0 E_up s0] by simp

text \<open>
  A countdown in which four units pass between the first two broadcasts: the connection
  is found dead before the second broadcast and the first reconnection attempt fails.
\<close>

theorem countdown_waits_with_retry:
  "fst (init_countdown C0 E_flaky s0) = Return ()
   \<and> timing (new_events s0 (snd (init_countdown C0 E_flaky s0))) =
       [Said ''server_restarting_in_5_secs'', Slept 1, Slept 3,
        Said ''server_restarting_in_4_secs'', Slept 1,
        Said ''server_restarting_in_3_secs'', Slept 1,
        Said ''server_restarting_in_2_secs'', Slept 1,
        Said ''server_restarting_in_1_secs'', Slept 1,
        Said ''server_restarting_NOW!'', Slept 1, Slept 2]"
  by (simp add: run_defs E_flaky_def s0_def str_int_def digits.simps C0_def RETRY_DELAY_def
      new_events_def)

section \<open>Time remaining and the notification\<close>

lemma calculate_fields:
  "next_start (calculate_restart_time s) = next_start s"
  "clock (calculate_restart_time s) = clock s"
  "trace (calculate_restart_time s) = trace s"
  "time_remaining (calculate_restart_time s) = hms (remaining_seconds s)"
  by (simp_all add: calculate_restart_time_def Let_def time_remaining_def hms_def
      remaining_seconds_def)

lemma int_total_seconds_mono:
  assumes "a \<le> b"
  shows "int_total_seconds a \<le> int_total_seconds b"
proof (cases "a < 0")
  case neg: True
  show ?thesis
  proof (cases "b < 0")
    case True
    have "(- b) div 1000000 \<le> (- a) div 1000000"
      using assms by (intro zdiv_mono1) simp_all
    with neg True show ?thesis by (simp add: int_total_seconds_def)
  next
    case False
    have "0 \<le> (- a) div 1000000" using neg by (simp add: pos_imp_zdiv_nonneg_iff)
    moreover have "0 \<le> b div 1000000" using False by (simp add: pos_imp_zdiv_nonneg_iff)
    ultimately show ?thesis using neg False by (simp add: int_total_seconds_def)
  qed
next
  case False
  with assms have "\<not> b < 0" by simp
  moreover have "a div 1000000 \<le> b div 1000000"
    using assms by (intro zdiv_mono1) simp_all
  ultimately show ?thesis using False by (simp add: int_total_seconds_def)
qed

lemma lex_3600:
  fixes q r q' r' :: int
  shows "3600 * q + r \<le> 3600 * q' + r' \<Longrightarrow> 0 \<le> r \<Longrightarrow> r' < 3600
         \<Longrightarrow> q < q' \<or> (q = q' \<and> r \<le> r')"
  by linarith

lemma lex_60:
  fixes q r q' r' :: int
  shows "60 * q + r \<le> 60 * q' + r' \<Longrightarrow> 0 \<le> r \<Longrightarrow> r' < 60
         \<Longrightarrow> q < q' \<or> (q = q' \<and> r \<le> r')"
  by linarith

lemma hms_mono:
  assumes "a \<le> b"
  shows "time_le (hms a) (hms b)"
proof -
  have "3600 * (a div 3600) + a mod 3600 \<le> 3600 * (b div 3600) + b mod 3600"
    unfolding mult_div_mod_eq by (rule assms)
  moreover have "0 \<le> a mod 3600" by (rule pos_mod_sign) simp
  moreover have "b mod 3600 < 3600" by (rule pos_mod_bound) simp
  ultimately have 1: "a div 3600 < b div 3600
      \<or> (a div 3600 = b div 3600 \<and> a mod 3600 \<le> b mod 3600)"
    by (rule lex_3600)
  have 2: "a mod 3600 div 60 < b mod 3600 div 60
      \<or> (a mod 3600 div 60 = b mod 3600 div 60 \<and> a mod 3600 mod 60 \<le> b mod 3600 mod 60)"
    if le: "a mod 3600 \<le> b mod 3600"
  proof -
    have "60 * (a mod 3600 div 60) + a mod 3600 mod 60
            \<le> 60 * (b mod 3600 div 60) + b mod 3600 mod 60"
      unfolding mult_div_mod_eq by (rule le)
    moreover have "0 \<le> a mod 3600 mod 60" by (rule pos_mod_sign) simp
    moreover have "b mod 3600 mod 60 < 60" by (rule pos_mod_bound) simp
    ultimately show ?thesis by (rule lex_60)
  qed
  from 1 2 show ?thesis
    unfolding hms_def time_le.simps by blast
qed

lemma time_le_trans: "time_le x y \<Longrightarrow> time_le y z \<Longrightarrow> time_le x z"
  by (cases x, cases y, cases z) auto

lemma idle_fields:
  "next_start ((sleep n ^^ d) s) = next_start s"
  "clock ((sleep n ^^ d) s) = clock s + int d * (int n * 1000000)"
  "initialized ((sleep n ^^ d) s) = initialized s"
  by (induction d) (simp_all add: sleep_def emit_def algebra_simps)

lemma notify_effect:
  assumes "notify_restart C E s = (r, s')"
  shows "next_start s' = next_start s \<and> clock s \<le> clock s'
       \<and> time_remaining s' = hms (remaining_seconds s)
       \<and> (\<exists>tr. trace s' = trace s @ tr
          \<and> broadcasts tr = (case r of
               Return u \<Rightarrow> [''server_restart_in_'' @ str_int (hours s')
                              @ (if hours s' = 1 then ''hr'' else ''hrs'') @ ''_''
                              @ str_int (minutes s')
                              @ (if minutes s' = 1 then ''min'' else ''mins'')]
             | Raise exc \<Rightarrow> []))"
proof -
  define s1 where "s1 = calculate_restart_time s"
  define msg where "msg = ''server_restart_in_'' @ str_int (hours s1)
                              @ (if hours s1 = 1 then ''hr'' else ''hrs'') @ ''_''
                              @ str_int (minutes s1)
                              @ (if minutes s1 = 1 then ''min'' else ''mins'')"
  obtain q s2 where b: "broadcast C E msg s1 = (q, s2)" by (cases "broadcast C E msg s1")
  from broadcast_effect[OF b] obtain tr where f: "frame s1 s2" and tr: "trace s2 = trace s1 @ tr"
    "broadcasts tr = (case q of Return v \<Rightarrow> [msg] | Raise exc \<Rightarrow> [])" by blast
  have r: "s' = s2" "r = (case q of Return v \<Rightarrow> Return () | Raise exc \<Rightarrow> Raise exc)"
    using assms b unfolding notify_restart_def Let_def s1_def[symmetric] msg_def[symmetric]
    by (auto split: result.splits)
  have h: "hours s2 = hours s1" "minutes s2 = minutes s1" "seconds s2 = seconds s1"
    "next_start s2 = next_start s1" "clock s1 \<le> clock s2"
    using f by (simp_all add: frame_def)
  have t: "time_remaining s2 = time_remaining s1" using h by (simp add: time_remaining_def)
  have "broadcasts tr = (case r of
               Return u \<Rightarrow> [''server_restart_in_'' @ str_int (hours s')
                              @ (if hours s' = 1 then ''hr'' else ''hrs'') @ ''_''
                              @ str_int (minutes s')
                              @ (if minutes s' = 1 then ''min'' else ''mins'')]
             | Raise exc \<Rightarrow> [])"
    using tr(2) r h by (cases q) (simp_all add: msg_def)
  then show ?thesis
    using r(1) h t tr(1) calculate_fields[of s] unfolding s1_def[symmetric] by auto
qed

lemma notify_run_bound:
  "(\<forall>x\<in>set (notify_run C E ds s). time_le x (hms (remaining_seconds s)))
   \<and> sorted_wrt (\<lambda>a b. time_le b a) (notify_run C E ds s)"
proof (induction ds arbitrary: s)
  case Nil
  show ?case by simp
next
  case (Cons d ds)
  define s1 where "s1 = (sleep 1 ^^ d) s"
  obtain r s2 where n: "notify_restart C E s1 = (r, s2)" by (cases "notify_restart C E s1")
  from notify_effect[OF n] have e: "next_start s2 = next_start s1" "clock s1 \<le> clock s2"
    "time_remaining s2 = hms (remaining_seconds s1)" by simp_all
  have "remaining_seconds s1 \<le> remaining_seconds s"
    unfolding remaining_seconds_def now_def s1_def
    by (rule int_total_seconds_mono) (simp add: idle_fields)
  then have a: "time_le (time_remaining s2) (hms (remaining_seconds s))"
    using e(3) by (simp add: hms_mono)
  have "remaining_seconds s2 \<le> remaining_seconds s1"
    unfolding remaining_seconds_def now_def
    by (rule int_total_seconds_mono) (use e in simp)
  then have b: "time_le (hms (remaining_seconds s2)) (time_remaining s2)"
    using e(3) by (simp add: hms_mono)
  from Cons.IH[of s2] have ih: "\<forall>x\<in>set (notify_run C E ds s2). time_le x (hms (remaining_seconds s2))"
    "sorted_wrt (\<lambda>a b. time_le b a) (notify_run C E ds s2)" by simp_all
  have c: "\<forall>x\<in>set (notify_run C E ds s2). time_le x (time_remaining s2)"
    using ih(1) b time_le_trans by blast
  have d: "\<forall>x\<in>set (notify_run C E ds s2). time_le x (hms (remaining_seconds s))"
    using c a time_le_trans by blast
  have unf: "notify_run C E (d # ds) s =
      (case r of Return u \<Rightarrow> time_remaining s2 # notify_run C E ds s2
               | Raise exc \<Rightarrow> [time_remaining s2])"
    unfolding notify_run.simps s1_def[symmetric] n by (cases r) simp_all
  show ?case
    unfolding unf using a c d ih(2) by (cases r) simp_all
qed


text \<open>
  C7. \<open>notify_restart\<close> leaves \<open>next_start\<close> as it was, and over any stretch of idle
  main-loop iterations and notification jobs the successive values of the stored time
  remaining never increase.
\<close>

theorem notify_restart_frame:
  "next_start (snd (notify_restart C E s)) = next_start s
   \<and> sorted_wrt (\<lambda>a b. time_le b a) (notify_run C E ds s)"
proof -
  obtain r s' where n: "notify_restart C E s = (r, s')" by (cases "notify_restart C E s")
  from notify_effect[OF n] have "next_start s' = next_start s" by simp
  with n notify_run_bound[of C E ds s] show ?thesis by simp
qed

lemma late_remaining:
  assumes "next_start s + 1000000 \<le> clock s"
  shows "remaining_seconds s \<le> - 1"
proof -
  have "1000000 \<le> clock s - next_start s" using assms by simp
  then have "1000000 div 1000000 \<le> (clock s - next_start s) div (1000000 :: int)"
    by (intro zdiv_mono1) simp_all
  then have "1 \<le> (clock s - next_start s) div 1000000" by simp
  moreover have "next_start s - clock s < 0" using assms by simp
  ultimately show ?thesis
    by (simp add: remaining_seconds_def now_def int_total_seconds_def)
qed

lemma minutes_range:
  fixes r :: int
  shows "0 \<le> r \<Longrightarrow> r < 3600 \<Longrightarrow> 0 \<le> r div 60 \<and> r div 60 \<le> 59"
  by linarith

lemma hms_negative:
  assumes "t \<le> - 1"
  shows "fst (hms t) < 0 \<and> 0 \<le> fst (snd (hms t)) \<and> fst (snd (hms t)) \<le> 59"
proof -
  have "t div 3600 < 0" using assms by (simp add: neg_imp_zdiv_neg_iff div_neg_pos_less0)
  moreover have "0 \<le> t mod 3600" by (rule pos_mod_sign) simp
  moreover have "t mod 3600 < 3600" by (rule pos_mod_bound) simp
  ultimately show ?thesis using minutes_range[of "t mod 3600"] by (simp add: hms_def)
qed

text \<open>
  C10, as the code has it. When \<open>notify_restart\<close> runs at least one whole second after
  \<open>next_start\<close>, the hours it stores are negative and the minutes lie in \<open>0..59\<close>, and the
  message it broadcasts carries the negative hours.
\<close>

theorem notify_past_due:
  assumes "next_start s + 1000000 \<le> clock s"
  shows "hours (snd (notify_restart C E s)) < 0
       \<and> 0 \<le> minutes (snd (notify_restart C E s))
       \<and> minutes (snd (notify_restart C E s)) \<le> 59
       \<and> (fst (notify_restart C E s) = Return ()
          \<longrightarrow> broadcasts (new_events s (snd (notify_restart C E s)))
              = [''server_restart_in_-'' @ digits (nat (- hours (snd (notify_restart C E s))))
                 @ ''hrs_'' @ str_int (minutes (snd (notify_restart C E s)))
                 @ (if minutes (snd (notify_restart C E s)) = 1 then ''min'' else ''mins'')])"
proof -
  obtain r s' where n: "notify_restart C E s = (r, s')" by (cases "notify_restart C E s")
  from notify_effect[OF n] obtain tr where e: "time_remaining s' = hms (remaining_seconds s)"
    "trace s' = trace s @ tr"
    "broadcasts tr = (case r of
               Return u \<Rightarrow> [''server_restart_in_'' @ str_int (hours s')
                              @ (if hours s' = 1 then ''hr'' else ''hrs'') @ ''_''
                              @ str_int (minutes s')
                              @ (if minutes s' = 1 then ''min'' else ''mins'')]
             | Raise exc \<Rightarrow> [])"
    by blast
  have "hms (remaining_seconds s) = (hours s', minutes s', seconds s')"
    using e(1) by (simp add: time_remaining_def)
  with hms_negative[OF late_remaining[OF assms]]
  have h: "hours s' < 0" "0 \<le> minutes s'" "minutes s' \<le> 59"
    by simp_all
  have ne: "new_events s s' = tr" using e(2) by (rule new_events_append)
  have "r = Return () \<longrightarrow> broadcasts tr
      = [''server_restart_in_-'' @ digits (nat (- hours s')) @ ''hrs_'' @ str_int (minutes s')
         @ (if minutes s' = 1 then ''min'' else ''mins'')]"
    using e(3) h(1) by (auto simp: str_int_def)
  with n h ne show ?thesis by simp
qed

lemmas clock_defs = notify_restart_def calculate_restart_time_def set_new_restart_time_def
  RestartManager_def int_total_seconds_def timedelta_hours_def RESTART_TIME_def now_def
  elapse_def

theorem notify_past_due_witness:
  "next_start s_past_5 + 1000000 \<le> clock s_past_5
   \<and> hours (snd (notify_restart C0 E_up s_past_5)) = - 1
   \<and> minutes (snd (notify_restart C0 E_up s_past_5)) = 59
   \<and> broadcasts (new_events s_past_5 (snd (notify_restart C0 E_up s_past_5)))
       = [''server_restart_in_-1hrs_59mins'']"
proof -
  have h: "next_start s_past_5 + 1000000 \<le> clock s_past_5"
    by (simp add: s_past_5_def s0_def clock_defs log_def emit_def E_up_def Let_def)
  have r: "fst (notify_restart C0 E_up s_past_5) = Return ()"
    "hours (snd (notify_restart C0 E_up s_past_5)) = - 1"
    "minutes (snd (notify_restart C0 E_up s_past_5)) = 59"
    by (simp_all add: s_past_5_def s0_def clock_defs run_defs E_up_def)
  show ?thesis
    using h r notify_past_due [OF h, of C0 E_up]
    by (simp add: str_int_def digits.simps)
qed

text \<open>
  Half a second after \<open>next_start\<close> the whole seconds remaining are zero, and so are the
  hours that are stored and broadcast.
\<close>

theorem notify_just_past_due:
  "next_start s_past_half < clock s_past_half
   \<and> hours (snd (notify_restart C0 E_up s_past_half)) = 0
   \<and> minutes (snd (notify_restart C0 E_up s_past_half)) = 0
   \<and> broadcasts (new_events s_past_half (snd (notify_restart C0 E_up s_past_half)))
       = [''server_restart_in_0hrs_0mins'']"
  by (simp add: s_past_half_def s0_def clock_defs run_defs E_up_def new_events_def
      str_int_def digits.simps)

section \<open>Rescheduling\<close>

lemma await_ready_initialized:
  assumes "await_ready lines i s = Some r"
  shows "initialized (snd r) = initialized s"
  using assms
proof (induction rule: await_ready.raw_induct[rotated 1, consumes 1])
  case (1 await_ready lines i s r)
  show ?case
  proof (cases "lines i")
    case None
    with 1(2) show ?thesis by auto
  next
    case (Some b)
    define s1 where "s1 = log INFO (strip b) (emit (Log_line b) s)"
    have i1: "initialized s1 = initialized s" by (simp add: s1_def log_def emit_def)
    show ?thesis
    proof (cases "sublist last_message b")
      case True
      with 1(2) Some have "r = (Suc i, s1)" by (simp add: Let_def s1_def)
      with i1 show ?thesis by simp
    next
      case False
      with 1(2) Some have "await_ready lines (Suc i) s1 = Some r" by (simp add: Let_def s1_def)
      from 1(1)[OF this] i1 show ?thesis by simp
    qed
  qed
qed

lemma restart_effect:
  assumes "restart C E s = Some (Return (), s')"
  shows "next_start s' = clock s' - closing_delay E s' + 7200000000
       \<and> time_remaining s'
           = hms (int_total_seconds (7200000000 - int (elapsed E (waits s' - 2))))
       \<and> initialized s' = initialized s"
proof -
  obtain s1 where c: "init_countdown C E s = (Return (), s1)"
    using assms by (auto simp: restart_def split: prod.splits result.splits)
  obtain v s2 where k: "command C E ''save'' s1 = (Return v, s2)"
    using assms c by (auto simp: restart_def split: prod.splits result.splits)
  obtain s3 where w: "log_to_discord C E ''Server restarting...'' ''info'' s2 = (Return (), s3)"
    using assms c k by (auto simp: restart_def split: prod.splits result.splits)
  obtain s4 where d: "container_restart E s3 = (Return (), s4)"
    using assms c k w by (auto simp: restart_def split: prod.splits result.splits)
  obtain n s5 where a: "await_ready (log_lines E (restarts s4)) 0 s4 = Some (n, s5)"
    using assms c k w d by (auto simp: restart_def split: option.splits)
  define s7 where "s7 = calculate_restart_time (elapse E (set_new_restart_time (elapse E s5)))"
  obtain s8 where p: "log_to_discord C E ''Server restarted!'' ''info'' s7 = (Return (), s8)"
    and s': "s' = log INFO ''Server restarted!'' s8"
    using assms c k w d a
    by (auto simp: restart_def Let_def s7_def split: prod.splits result.splits)
  from p have s8: "s8 = emit (Webhook ''Server restarted!'' ''00FF00'')
                         ((elapse E s7)\<lparr>posts := Suc (posts s7)\<rparr>)"
    by (auto simp: log_to_discord_def Let_def color_map_def split: option.splits)
  have i1: "initialized s1 = initialized s" using countdown_effect[OF c] by (simp add: frame_def)
  have i2: "initialized s2 = initialized s1" using command_effect[OF k] by (simp add: frame_def)
  have i3: "initialized s3 = initialized s2"
    using w by (auto simp: log_to_discord_def Let_def elapse_def emit_def split: option.splits)
  have i4: "initialized s4 = initialized s3"
    using d by (auto simp: container_restart_def Let_def elapse_def emit_def split: option.splits)
  have i5: "initialized s5 = initialized s4" using await_ready_initialized[OF a] by simp
  have "initialized s' = initialized s5"
    unfolding s' s8 s7_def
    by (simp add: log_def emit_def elapse_def set_new_restart_time_def
        calculate_restart_time_def Let_def)
  with i1 i2 i3 i4 i5 have i: "initialized s' = initialized s" by simp
  have "next_start s' = clock s' - closing_delay E s' + 7200000000
       \<and> time_remaining s'
           = hms (int_total_seconds (7200000000 - int (elapsed E (waits s' - 2))))"
    unfolding s' s8 s7_def
    by (simp add: closing_delay_def log_def emit_def elapse_def set_new_restart_time_def
        calculate_restart_time_def now_def timedelta_hours_def RESTART_TIME_def Let_def
        time_remaining_def hms_def)
  with i show ?thesis by simp
qed


lemmas day_defs = restart_def log_to_discord_def container_restart_def await_ready.simps
  run_defs clock_defs E_up_def s0_def C0_def accepting_def color_map_def str_int_def
  digits.simps time_remaining_def

lemma restart_day:
  "map_option (\<lambda>p. (fst p, clock (snd p), next_start (snd p), time_remaining (snd p), waits (snd p)))
     (restart C0 E_day (RestartManager E_day s0))
   = Some (Return (), 9500000, 7209000000, (1, 59, 59), 6)"
  by (simp add: day_defs E_day_def)

lemma restart_slow:
  "map_option (\<lambda>p. (fst p, clock (snd p), next_start (snd p), time_remaining (snd p)))
     (restart C0 E_slow (RestartManager E_slow s0))
   = Some (Return (), 26000000, 7220000000, (1, 59, 57))"
  by (simp add: day_defs E_slow_def)


lemma restart_without_url:
  "map_option fst (restart (C0\<lparr>WEBHOOK := None\<rparr>) E_day (RestartManager E_day s0))
   = Some (Raise ''Invalid URL'')"
  by (simp add: day_defs E_day_def)

lemma create_reliable:
  assumes "reliable E"
  shows "fst (create_rcon_connection C E s) = Return ()"
proof -
  from assms obtain r where "connect_result E (attempts s) = Connected r"
    by (auto simp: reliable_def)
  then have "fst (connect_attempt C E s) = None" by (simp add: connect_attempt_fst)
  then show ?thesis
    unfolding create_rcon_connection_def MAX_RETRIES_def
    by (subst create_rcon_connection_loop.simps)
       (cases "connect_attempt C E s", simp)
qed

lemma establish_calm:
  assumes "down E \<or> reliable E"
  shows "fst (establish_rcon_connection C E s) = Return ()"
proof (cases "down E")
  case True
  then show ?thesis
    by (simp add: down_def establish_rcon_connection_def is_container_running_def)
next
  case False
  with assms have r: "reliable E" by simp
  obtain b s1 where a: "is_container_running E s = (b, s1)"
    by (cases "is_container_running E s")
  obtain c s2 where p: "is_rcon_connected E s1 = (c, s2)"
    by (cases "is_rcon_connected E s1")
  show ?thesis
    using a p create_reliable[OF r, of C s1] create_reliable[OF r, of C s2]
    by (simp add: establish_rcon_connection_def split: bool.splits)
qed

lemma broadcast_calm:
  "down E \<or> reliable E \<Longrightarrow> \<exists>v. fst (broadcast C E message s) = Return v"
  using establish_calm[of E C s]
  by (cases "establish_rcon_connection C E s")
     (auto simp: broadcast_def split: prod.splits outcome.splits)

lemma command_calm:
  "down E \<or> reliable E \<Longrightarrow> \<exists>v. fst (command C E cmd_text s) = Return v"
  using establish_calm[of E C s]
  by (cases "establish_rcon_connection C E s")
     (auto simp: command_def split: prod.splits outcome.splits)

lemma countdown_loop_calm:
  assumes "down E \<or> reliable E"
  shows "fst (init_countdown_loop C E (int n - 1) s) = Return ()"
proof (induction n arbitrary: s)
  case 0
  show ?case by (simp add: countdown_done)
next
  case (Suc n)
  obtain q s1 where b: "broadcast C E (countdown_message (int n)) s = (q, s1)"
    by (cases "broadcast C E (countdown_message (int n)) s")
  with broadcast_calm[OF assms, of C "countdown_message (int n)" s] obtain v where "q = Return v"
    by auto
  with b Suc.IH[of "sleep 1 s1"] countdown_step[of "int n" C E s] show ?case by simp
qed

lemma countdown_returns_calm: "down E \<or> reliable E \<Longrightarrow> fst (init_countdown C E s) = Return ()"
  using countdown_loop_calm[of E C 6 s]
  by (cases "init_countdown_loop C E 5 s") (auto simp: init_countdown_def split: result.splits)

lemma notify_returns_calm:
  assumes "down E \<or> reliable E"
  shows "fst (notify_restart C E s) = Return ()"
proof -
  define s1 where "s1 = calculate_restart_time s"
  define msg where "msg = ''server_restart_in_'' @ str_int (hours s1)
                              @ (if hours s1 = 1 then ''hr'' else ''hrs'') @ ''_''
                              @ str_int (minutes s1)
                              @ (if minutes s1 = 1 then ''min'' else ''mins'')"
  obtain q s2 where b: "broadcast C E msg s1 = (q, s2)" by (cases "broadcast C E msg s1")
  with broadcast_calm[OF assms, of C msg s1] obtain v where "q = Return v" by auto
  with b show ?thesis
    unfolding notify_restart_def Let_def s1_def[symmetric] msg_def[symmetric] by simp
qed

lemma restart_returns:
  assumes "down E \<or> reliable E"
    and "\<forall>k. webhook_result E (WEBHOOK C) k = None"
    and "\<forall>k. restart_result E k = None"
    and "\<forall>r. \<exists>b. log_lines E r 0 = Some b \<and> sublist last_message b"
  shows "\<exists>s'. restart C E s = Some (Return (), s')"
proof -
  obtain s1 where c: "init_countdown C E s = (Return (), s1)"
    using countdown_returns_calm[OF assms(1), of C s] by (cases "init_countdown C E s") auto
  obtain v s2 where k: "command C E ''save'' s1 = (Return v, s2)"
    using command_calm[OF assms(1), of C "''save''" s1] by (cases "command C E ''save'' s1") auto
  obtain s3 where w: "log_to_discord C E ''Server restarting...'' ''info'' s2 = (Return (), s3)"
    using assms(2) by (simp add: log_to_discord_def Let_def)
  obtain s4 where d: "container_restart E s3 = (Return (), s4)"
    using assms(3) by (simp add: container_restart_def Let_def)
  from assms(4) obtain b where b: "log_lines E (restarts s4) 0 = Some b" "sublist last_message b"
    by blast
  have a: "await_ready (log_lines E (restarts s4)) 0 s4
          = Some (Suc 0, log INFO (strip b) (emit (Log_line b) s4))"
    by (subst await_ready.simps) (simp add: b Let_def)
  define s7 where "s7 = calculate_restart_time (elapse E (set_new_restart_time
      (elapse E (log INFO (strip b) (emit (Log_line b) s4)))))"
  obtain s8 where p: "log_to_discord C E ''Server restarted!'' ''info'' s7 = (Return (), s8)"
    using assms(2) by (simp add: log_to_discord_def Let_def)
  show ?thesis
    using c k w d a p by (simp add: restart_def Let_def s7_def)
qed

lemma day_works:
  "down E_day \<or> reliable E_day"
  "\<forall>k. webhook_result E_day (WEBHOOK C0) k = None"
  "\<forall>k. restart_result E_day k = None"
  "\<forall>r. \<exists>b. log_lines E_day r 0 = Some b \<and> sublist last_message b"
  "elapsed E_day k = 250000"
  by (simp_all add: E_day_def E_up_def reliable_def C0_def accepting_def)

lemma RestartManager_fresh:
  assumes "\<not> initialized s"
  shows "next_start (RestartManager E s) = clock s + 7200000000"
    and "clock (RestartManager E s) = clock s + int (elapsed E (waits s))"
    and "initialized (RestartManager E s)"
  using assms by (simp_all add: clock_defs log_def emit_def Let_def)

lemma RestartManager_again: "initialized s \<Longrightarrow> RestartManager E s = s"
  by (simp add: RestartManager_def)

lemma notify_job_effect:
  assumes "initialized s" and "notify_job C E s = (r, s')"
  shows "next_start s' = next_start s \<and> clock s \<le> clock s' \<and> initialized s'"
proof -
  from assms have n: "notify_restart C E s = (r, s')"
    by (simp add: notify_job_def RestartManager_again)
  define s1 where "s1 = calculate_restart_time s"
  have i: "initialized s1" using assms(1) by (simp add: s1_def calculate_restart_time_def Let_def)
  obtain m q where b: "broadcast C E m s1 = (q, s')"
    using n unfolding notify_restart_def Let_def s1_def[symmetric]
    by (auto split: prod.splits result.splits)
  from broadcast_effect[OF b] i have "initialized s'" by (simp add: frame_def)
  with notify_effect[OF n] show ?thesis by simp
qed

lemma quiet_effect:
  assumes "quiet C E s s'" and "initialized s"
  shows "next_start s' = next_start s \<and> clock s \<le> clock s' \<and> initialized s'"
  using assms
proof (induction rule: quiet.induct)
  case (here s)
  then show ?case by simp
next
  case (idle s s')
  then show ?case by (simp add: sleep_def emit_def)
next
  case (notified s s' r s'')
  then have h: "next_start s' = next_start s" "clock s \<le> clock s'" "initialized s'" by simp_all
  from notify_job_effect[OF h(3) notified.hyps(2)] h show ?case by simp
qed


lemma RestartManager_initialized: "initialized (RestartManager E s)"
  by (simp add: RestartManager_def)

lemma reachable_idle: "reachable C E s \<Longrightarrow> reachable C E ((sleep 1 ^^ n) s)"
  by (induction n) (simp_all del: One_nat_def add: reachable.idle)

lemma reachable_initialized: "reachable C E s \<Longrightarrow> initialized s"
proof (induction rule: reachable.induct)
  case (created s)
  show ?case by (rule RestartManager_initialized)
next
  case (idle s)
  then show ?case by (simp add: sleep_def emit_def)
next
  case (restarted s s')
  then show ?case using restart_effect[of C E "RestartManager E s" s']
    by (simp add: restart_job_def RestartManager_initialized)
next
  case (notified s s')
  then show ?case using notify_job_effect[of s C E "Return ()" s'] by simp
qed

lemma reachable_since:
  assumes "reachable C E s2"
  shows "(\<exists>s. \<not> initialized s \<and> quiet C E (RestartManager E s) s2)
       \<or> (\<exists>s s1. initialized s \<and> restart C E s = Some (Return (), s1) \<and> quiet C E s1 s2)"
  using assms
proof (induction rule: reachable.induct)
  case (created s)
  then show ?case using quiet.here by blast
next
  case (idle s)
  then show ?case using quiet.idle by blast
next
  case (restarted s s')
  have "initialized (RestartManager E s)" by (rule RestartManager_initialized)
  moreover have "restart C E (RestartManager E s) = Some (Return (), s')"
    using restarted.hyps(2) by (simp add: restart_job_def)
  ultimately show ?case using quiet.here by blast
next
  case (notified s s')
  then show ?case using quiet.notified by blast
qed

text \<open>
  C3, as the code has it. When \<open>restart\<close> returns, \<open>next_start\<close> is the time read at line
  61, after the wait for the sentinel, plus exactly two hours. The completion time is
  later than that reading by the closing delay (the time between the two readings of
  the clock plus that of the closing webhook POST), so \<open>next_start\<close> is the completion
  time plus two hours minus the closing delay, and the stored time remaining is two
  hours less what passed between the two readings, in whole seconds.
\<close>

theorem restart_reschedules:
  assumes "restart C E s = Some (Return (), s')"
  shows "next_start s' = clock s' - closing_delay E s' + 7200 * 1000000
       \<and> time_remaining s'
           = hms (int_total_seconds (7200 * 1000000 - int (elapsed E (waits s' - 2))))"
  using restart_effect[OF assms] by simp

theorem restart_reschedules_witness:
  "\<exists>s'. restart C0 E_day (RestartManager E_day s0) = Some (Return (), s')
       \<and> clock s' = 9500000 \<and> closing_delay E_day s' = 500000
       \<and> next_start s' = 7209000000 \<and> time_remaining s' = (1, 59, 59)"
proof -
  from restart_day obtain s' where r: "restart C0 E_day (RestartManager E_day s0) = Some (Return (), s')"
    and c: "clock s' = 9500000" by auto
  have d: "closing_delay E_day s' = 500000" by (simp add: closing_delay_def day_works(5))
  from restart_reschedules [OF r] c d
  have "next_start s' = 7209000000" "time_remaining s' = (1, 59, 59)"
    by (simp_all add: day_works(5) hms_def int_total_seconds_def)
  with r c d show ?thesis by blast
qed

text \<open>
  A restart after which \<open>next_start\<close> is not the completion time plus two hours: every
  wait takes three seconds, the restart completes at 26 s and \<open>next_start\<close> is 7220 s,
  six seconds short.
\<close>

theorem restart_completes_later:
  "map_option (\<lambda>p. (fst p, clock (snd p), next_start (snd p), time_remaining (snd p)))
     (restart C0 E_slow (RestartManager E_slow s0))
   = Some (Return (), 26000000, 7220000000, (1, 59, 57))"
  by (rule restart_slow)

text \<open>
  C6, as the code has it. \<open>next_start\<close> is set to the time read plus exactly two hours
  when the manager is created and at the end of every restart that returns, and idle
  iterations and notification jobs leave it as it is. So at every state that follows
  such a moment without another restart, and every reachable state is one, it is
  strictly in the future exactly as long as less than two hours have passed since that
  reading.
\<close>

theorem next_start_window:
  "(\<not> initialized s \<and> quiet C E (RestartManager E s) t
      \<longrightarrow> next_start t = clock s + 7200 * 1000000
        \<and> (clock t < next_start t) = (clock t - clock s < 7200 * 1000000))
   \<and> (initialized s \<and> restart C E s = Some (Return (), s') \<and> quiet C E s' t
      \<longrightarrow> next_start t = clock s' - closing_delay E s' + 7200 * 1000000
        \<and> (clock t < next_start t)
            = (clock t - (clock s' - closing_delay E s') < 7200 * 1000000))
   \<and> (reachable C E t
      \<longrightarrow> (\<exists>s. \<not> initialized s \<and> quiet C E (RestartManager E s) t)
        \<or> (\<exists>s s'. initialized s \<and> restart C E s = Some (Return (), s')
               \<and> quiet C E s' t))"
proof (intro conjI impI)
  assume a: "\<not> initialized s \<and> quiet C E (RestartManager E s) t"
  then have "next_start t = next_start (RestartManager E s)"
    using quiet_effect[of C E "RestartManager E s" t] by (simp add: RestartManager_initialized)
  with a RestartManager_fresh(1)[of s E]
  show n: "next_start t = clock s + 7200 * 1000000" by simp
  show "(clock t < next_start t) = (clock t - clock s < 7200 * 1000000)"
    unfolding n by auto
next
  assume a: "initialized s \<and> restart C E s = Some (Return (), s') \<and> quiet C E s' t"
  then have e: "next_start s' = clock s' - closing_delay E s' + 7200000000" "initialized s'"
    using restart_effect[of C E s s'] by simp_all
  with a have "next_start t = next_start s'" using quiet_effect[of C E s' t] by simp
  with e show n: "next_start t = clock s' - closing_delay E s' + 7200 * 1000000" by simp
  show "(clock t < next_start t)
            = (clock t - (clock s' - closing_delay E s') < 7200 * 1000000)"
    unfolding n by auto
next
  assume "reachable C E t"
  then show "(\<exists>s. \<not> initialized s \<and> quiet C E (RestartManager E s) t)
        \<or> (\<exists>s s'. initialized s \<and> restart C E s = Some (Return (), s')
               \<and> quiet C E s' t)"
    by (rule reachable_since)
qed

theorem next_start_window_witness:
  "\<not> initialized s0
   \<and> next_start (sleep 1 (RestartManager E_day s0)) = 7200000000
   \<and> clock (sleep 1 (RestartManager E_day s0)) < next_start (sleep 1 (RestartManager E_day s0))
   \<and> (\<exists>s1. restart C0 E_day (RestartManager E_day s0) = Some (Return (), s1)
          \<and> next_start (sleep 1 s1) = 7209000000
          \<and> clock (sleep 1 s1) < next_start (sleep 1 s1))
   \<and> reachable C0 E_day (RestartManager E_day s0)"
proof -
  define m where "m = RestartManager E_day s0"
  have i: "\<not> initialized s0" "clock s0 = 0" by (simp_all add: s0_def)
  have im: "initialized m" unfolding m_def by (rule RestartManager_initialized)
  have cm: "clock (sleep 1 m) = 1250000"
    using RestartManager_fresh(2)[OF i(1), of E_day]
    by (simp add: m_def sleep_def emit_def day_works(5) i(2))
  have q1: "quiet C0 E_day m (sleep 1 m)" by (intro quiet.idle quiet.here)
  from restart_day obtain s1 where r: "restart C0 E_day m = Some (Return (), s1)"
    and c: "clock s1 = 9500000" unfolding m_def by auto
  have d: "closing_delay E_day s1 = 500000" by (simp add: closing_delay_def day_works(5))
  have q2: "quiet C0 E_day s1 (sleep 1 s1)" by (intro quiet.idle quiet.here)
  have c1: "clock (sleep 1 s1) = 10500000" using c by (simp add: sleep_def emit_def)
  have re: "reachable C0 E_day m" unfolding m_def using i(1) by (rule reachable.created)
  from next_start_window [where s = s0 and C = C0 and E = E_day and t = "sleep 1 m"] i q1
  have a: "next_start (sleep 1 m) = 7200000000" by (simp add: m_def)
  from next_start_window [where s = m and C = C0 and E = E_day and s' = s1
      and t = "sleep 1 s1"] im r q2 c d
  have b: "next_start (sleep 1 s1) = 7209000000" by simp
  show ?thesis
    unfolding m_def[symmetric] using i(1) a b cm c1 r re by auto
qed

text \<open>
  A state of the running program in which \<open>next_start\<close> is not in the future: the moment
  at which the second restart is due, half a second past \<open>next_start\<close>.
\<close>

theorem next_start_overtaken:
  "reachable C0 E_day s_next_due \<and> next_start s_next_due + 500000 = clock s_next_due
   \<and> \<not> clock s_next_due < next_start s_next_due"
proof -
  define x where "x = (sleep 1 ^^ 1200) s0"
  have nx: "\<not> initialized x" by (simp add: x_def idle_fields s0_def)
  have 1: "reachable C0 E_day (RestartManager E_day x)" using nx by (rule reachable.created)
  have "notify_job C0 E_day (RestartManager E_day x) = notify_job C0 E_day x"
    by (simp add: notify_job_def RestartManager_again RestartManager_initialized)
  moreover have "fst (notify_job C0 E_day x) = Return ()"
    by (simp add: notify_job_def notify_returns_calm[OF day_works(1)])
  ultimately have "notify_job C0 E_day (RestartManager E_day x) = (Return (), s_first)"
    by (simp add: s_first_def x_def prod_eq_iff)
  with 1 have 2: "reachable C0 E_day s_first" by (rule reachable.notified)
  then have 3: "reachable C0 E_day ((sleep 1 ^^ 6000) s_first)" by (rule reachable_idle)
  from restart_returns[OF day_works(1-4), of "RestartManager E_day ((sleep 1 ^^ 6000) s_first)"]
  obtain s' where "restart_job C0 E_day ((sleep 1 ^^ 6000) s_first) = Some (Return (), s')"
    by (auto simp: restart_job_def)
  then have r: "restart_job C0 E_day ((sleep 1 ^^ 6000) s_first) = Some (Return (), s_restarted)"
    by (simp add: s_restarted_def)
  with 3 have 4: "reachable C0 E_day s_restarted" by (rule reachable.restarted)
  then have 5: "reachable C0 E_day s_next_due"
    unfolding s_next_due_def by (rule reachable_idle)
  from r have "next_start s_restarted = clock s_restarted - closing_delay E_day s_restarted + 7200000000"
    using restart_effect by (simp add: restart_job_def)
  moreover have "closing_delay E_day s_restarted = 500000"
    by (simp add: closing_delay_def day_works(5))
  ultimately have "next_start s_next_due + 500000 = clock s_next_due"
    by (simp add: s_next_due_def idle_fields)
  with 5 show ?thesis by simp
qed

end
